theory Spec2Isabelle
  imports Complex_Main
begin

section \<open>Values, errors and the library functions the notebooks call\<close>

text \<open>
  The notebooks compute with Python and numpy floats. The embedding idealises a finite
  float as a real number: rounding and overflow are outside the model. What is kept is
  every place where the code leaves the finite numbers or raises:
  \<^item> a Python exception is a value of \<open>error\<close> (\<open>Inl\<close> of the result);
  \<^item> \<open>NonFinite\<close> is a float result that is not a finite number: \<open>nan\<close> or an infinity.
    numpy warns and goes on where a Python float would raise (division by a zero
    \<open>np.float64\<close>, \<open>np.log\<close> of a number \<open>\<le> 0\<close>, \<open>np.sqrt\<close> of a negative number, the mean of
    an empty array);
  \<^item> where the code goes on with an infinity and comes back to a finite number, as the
    closed formula does through \<open>ss.norm.cdf\<close>, the intermediate value is an \<open>ieee\<close> and
    the model follows it;
  \<^item> a function that falls off its last \<open>elif\<close> returns Python's \<open>None\<close>: \<open>None\<close> of an
    option.
\<close>

datatype error = ValueError | ZeroDivisionError | IndexError

datatype npfloat = Finite real | NonFinite

datatype ieee = Num real | PosInf | NegInf | NaN

text \<open>
  The float operations that meet an infinity in the notebooks. A real argument that is
  zero is the float \<open>0.0\<close>; the negative zero arises only as a product, and the flag
  \<open>negative_zero\<close> of \<open>np_divide\<close> says that the zero divisor is \<open>-0.0\<close>.
  \<^item> \<open>np.log\<close>: \<open>-inf\<close> at zero, \<open>nan\<close> below;
  \<^item> an \<open>ieee\<close> plus a finite float, and the negation of an \<open>ieee\<close>;
  \<^item> an \<open>ieee\<close> divided by a finite float: by zero, \<open>0 / 0\<close> is \<open>nan\<close> and anything else
    is an infinity whose sign is the product of the two signs;
  \<^item> \<open>ss.norm.cdf\<close> and \<open>ss.norm.pdf\<close>: \<open>cdf inf = 1\<close>, \<open>cdf (-inf) = 0\<close>, \<open>pdf (\<plusminus>inf) = 0\<close>, and
    \<open>nan\<close> at \<open>nan\<close>;
  \<^item> \<open>fl_lift\<close> and \<open>fl_lift2\<close>: sums, differences and products with finite floats, of
    operands that are finite or \<open>nan\<close>: a \<open>nan\<close> operand gives \<open>nan\<close>.
\<close>

definition np_log :: "real \<Rightarrow> ieee" where
  "np_log x = (if 0 < x then Num (ln x) else if x = 0 then NegInf else NaN)"

definition ieee_add :: "ieee \<Rightarrow> real \<Rightarrow> ieee" where
  "ieee_add a b = (case a of Num x \<Rightarrow> Num (x + b) | PosInf \<Rightarrow> PosInf | NegInf \<Rightarrow> NegInf | NaN \<Rightarrow> NaN)"

definition ieee_uminus :: "ieee \<Rightarrow> ieee" where
  "ieee_uminus a = (case a of Num x \<Rightarrow> Num (- x) | PosInf \<Rightarrow> NegInf | NegInf \<Rightarrow> PosInf | NaN \<Rightarrow> NaN)"

definition np_divide :: "ieee \<Rightarrow> real \<Rightarrow> bool \<Rightarrow> ieee" where
  "np_divide a den negative_zero =
     (case a of
        NaN \<Rightarrow> NaN
      | Num x \<Rightarrow>
          if den \<noteq> 0 then Num (x / den)
          else if x = 0 then NaN
          else if (0 < x) = (\<not> negative_zero) then PosInf else NegInf
      | PosInf \<Rightarrow> if den < 0 \<or> (den = 0 \<and> negative_zero) then NegInf else PosInf
      | NegInf \<Rightarrow> if den < 0 \<or> (den = 0 \<and> negative_zero) then PosInf else NegInf)"

definition fl_lift :: "(real \<Rightarrow> real) \<Rightarrow> npfloat \<Rightarrow> npfloat" where
  "fl_lift f a = (case a of Finite x \<Rightarrow> Finite (f x) | NonFinite \<Rightarrow> NonFinite)"

definition fl_lift2 :: "(real \<Rightarrow> real \<Rightarrow> real) \<Rightarrow> npfloat \<Rightarrow> npfloat \<Rightarrow> npfloat" where
  "fl_lift2 f a b =
     (case a of
        Finite x \<Rightarrow> (case b of Finite y \<Rightarrow> Finite (f x y) | NonFinite \<Rightarrow> NonFinite)
      | NonFinite \<Rightarrow> NonFinite)"

text \<open>
  \<open>ss.norm.pdf\<close> and \<open>ss.norm.cdf\<close> of scipy: the density of the standard normal
  distribution and its distribution function, \<open>1/2 + \<integral>\<^sub>0\<^sup>x pdf\<close>. The integral is written as
  the power series of the integrand integrated term by term,
  \<open>\<integral>\<^sub>0\<^sup>x exp (- t\<^sup>2 / 2) dt = x * (\<Sum>n. (- 1 / 2)^n / (n! * (2 * n + 1)) * (x\<^sup>2)^n)\<close>;
  \<open>norm_cdf_zero\<close> and \<open>norm_cdf_deriv\<close> below show that it is the function with value
  \<open>1/2\<close> at \<open>0\<close> whose derivative is the density.
\<close>

definition norm_pdf :: "real \<Rightarrow> real" where
  "norm_pdf x = exp (- (x\<^sup>2) / 2) / sqrt (2 * pi)"

definition cdf_coeff :: "nat \<Rightarrow> real" where
  "cdf_coeff n = (- 1 / 2) ^ n / (fact n * (2 * real n + 1))"

definition norm_cdf :: "real \<Rightarrow> real" where
  "norm_cdf x = 1 / 2 + x / sqrt (2 * pi) * (\<Sum>n. cdf_coeff n * (x\<^sup>2) ^ n)"

definition np_cdf :: "ieee \<Rightarrow> npfloat" where
  "np_cdf a =
     (case a of Num x \<Rightarrow> Finite (norm_cdf x) | PosInf \<Rightarrow> Finite 1 | NegInf \<Rightarrow> Finite 0
      | NaN \<Rightarrow> NonFinite)"

definition np_pdf :: "ieee \<Rightarrow> npfloat" where
  "np_pdf a =
     (case a of Num x \<Rightarrow> Finite (norm_pdf x) | PosInf \<Rightarrow> Finite 0 | NegInf \<Rightarrow> Finite 0
      | NaN \<Rightarrow> NonFinite)"

section \<open>Black-Scholes closed formula (notebooks 4.4 and 4.5)\<close>

text \<open>
  \<^verbatim>\<open>
  def closed_formula(S0, K, T, r, sigma, payoff='call'):
      d1 = (np.log(S0 / K) + (r + sigma**2 / 2) * T) / (sigma * np.sqrt(T))
      d2 = d1 - sigma * np.sqrt(T)
      if payoff == 'call':
          return S0 * ss.norm.cdf(d1) - K * np.exp(-r * T) * ss.norm.cdf(d2)
      elif payoff == 'put':
          return K * np.exp(-r * T) * ss.norm.cdf(-d2) - S0 * ss.norm.cdf(-d1)
  \<close>
  \<open>S0 / K\<close> divides two Python floats and raises \<open>ZeroDivisionError\<close> when \<open>K\<close> is zero.
  The other operations are numpy's and raise nothing. \<open>d1_value\<close> is the float \<open>d1\<close>:
  \<open>nan\<close> for a negative \<open>T\<close>, whose square root is \<open>nan\<close>; otherwise the quotient of the
  numerator, which \<open>np.log\<close> makes \<open>-inf\<close> or \<open>nan\<close> for \<open>S0 / K \<le> 0\<close>, by the finite divisor
  \<open>sigma * np.sqrt(T)\<close>, which is \<open>-0.0\<close> when \<open>sigma < 0\<close> and \<open>T = 0\<close>. \<open>d2_value\<close> subtracts
  the finite divisor. Each price is a finite combination of the two values of
  \<open>ss.norm.cdf\<close>, so it is a finite number unless \<open>d1\<close> is \<open>nan\<close>. On the inputs where every
  operation is defined, \<open>d1\<close> and \<open>d2\<close> are the real numbers \<open>bs_d1\<close> and \<open>bs_d2\<close>.
\<close>

definition bs_d1 :: "real \<Rightarrow> real \<Rightarrow> real \<Rightarrow> real \<Rightarrow> real \<Rightarrow> real" where
  "bs_d1 S0 K T r sigma = (ln (S0 / K) + (r + sigma\<^sup>2 / 2) * T) / (sigma * sqrt T)"

definition bs_d2 :: "real \<Rightarrow> real \<Rightarrow> real \<Rightarrow> real \<Rightarrow> real \<Rightarrow> real" where
  "bs_d2 S0 K T r sigma = bs_d1 S0 K T r sigma - sigma * sqrt T"

definition d1_value :: "real \<Rightarrow> real \<Rightarrow> real \<Rightarrow> real \<Rightarrow> real \<Rightarrow> ieee" where
  "d1_value S0 K T r sigma =
     (if T < 0 then NaN
      else np_divide (ieee_add (np_log (S0 / K)) ((r + sigma\<^sup>2 / 2) * T))
             (sigma * sqrt T) (sigma < 0 \<and> T = 0))"

definition d2_value :: "real \<Rightarrow> real \<Rightarrow> real \<Rightarrow> real \<Rightarrow> real \<Rightarrow> ieee" where
  "d2_value S0 K T r sigma = ieee_add (d1_value S0 K T r sigma) (- (sigma * sqrt T))"

definition closed_formula ::
  "real \<Rightarrow> real \<Rightarrow> real \<Rightarrow> real \<Rightarrow> real \<Rightarrow> string \<Rightarrow> error + npfloat option" where
  "closed_formula S0 K T r sigma payoff =
     (if K = 0 then Inl ZeroDivisionError
      else let d1 = d1_value S0 K T r sigma; d2 = d2_value S0 K T r sigma in
        if payoff = ''call'' then
          Inr (Some (fl_lift2 (\<lambda>c1 c2. S0 * c1 - K * exp (- r * T) * c2) (np_cdf d1) (np_cdf d2)))
        else if payoff = ''put'' then
          Inr (Some (fl_lift2 (\<lambda>c2 c1. K * exp (- r * T) * c2 - S0 * c1)
                       (np_cdf (ieee_uminus d2)) (np_cdf (ieee_uminus d1))))
        else Inr None)"

section \<open>The Greeks (notebook 4.5)\<close>

text \<open>
  \<^verbatim>\<open>
  def calculate_delta(S0, K, T, r, sigma, payoff='call'):
      d1 = (np.log(S0 / K) + (r + sigma**2 / 2) * T) / (sigma * np.sqrt(T))
      if payoff.lower() == 'call':
          return ss.norm.cdf(d1)
      elif payoff.lower() == 'put':
          return ss.norm.cdf(d1) - 1

  def calculate_gamma(S0, K, T, r, sigma):
      d1 = (np.log(S0 / K) + (r + sigma**2 / 2) * T) / (sigma * np.sqrt(T))
      return ss.norm.pdf(d1) / (S0 * sigma * np.sqrt(T))

  def calculate_vega(S0, K, T, r, sigma):
      d1 = (np.log(S0 / K) + (r + sigma**2 / 2) * T) / (sigma * np.sqrt(T))
      return (S0 * np.sqrt(T) * ss.norm.pdf(d1)) / 100
  \<close>
  \<open>str_lower\<close> is \<open>str.lower\<close> on ASCII letters (a \<open>char\<close> is a byte: code 65 to 90 is
  \<open>A\<close> to \<open>Z\<close>, and adding 32 gives the lower-case letter).
\<close>

definition lower_char :: "char \<Rightarrow> char" where
  "lower_char c = (let n = of_char c :: nat in if 65 \<le> n \<and> n \<le> 90 then char_of (n + 32) else c)"

definition str_lower :: "string \<Rightarrow> string" where
  "str_lower s = map lower_char s"

definition calculate_delta ::
  "real \<Rightarrow> real \<Rightarrow> real \<Rightarrow> real \<Rightarrow> real \<Rightarrow> string \<Rightarrow> error + npfloat option" where
  "calculate_delta S0 K T r sigma payoff =
     (if K = 0 then Inl ZeroDivisionError
      else let d1 = d1_value S0 K T r sigma in
        if str_lower payoff = ''call'' then Inr (Some (np_cdf d1))
        else if str_lower payoff = ''put'' then Inr (Some (fl_lift (\<lambda>c. c - 1) (np_cdf d1)))
        else Inr None)"

text \<open>
  The divisor of gamma is zero whenever \<open>d1\<close> is infinite, and the quotient \<open>0 / 0\<close> is
  \<open>nan\<close>; a negative \<open>T\<close> makes \<open>d1\<close>, and with it gamma and vega, \<open>nan\<close>.
\<close>

definition calculate_gamma :: "real \<Rightarrow> real \<Rightarrow> real \<Rightarrow> real \<Rightarrow> real \<Rightarrow> error + npfloat" where
  "calculate_gamma S0 K T r sigma =
     (if K = 0 then Inl ZeroDivisionError
      else let d1 = d1_value S0 K T r sigma in
        Inr (case np_pdf d1 of
               Finite p \<Rightarrow>
                 if S0 * sigma * sqrt T \<noteq> 0 then Finite (p / (S0 * sigma * sqrt T))
                 else NonFinite
             | NonFinite \<Rightarrow> NonFinite))"

definition calculate_vega :: "real \<Rightarrow> real \<Rightarrow> real \<Rightarrow> real \<Rightarrow> real \<Rightarrow> error + npfloat" where
  "calculate_vega S0 K T r sigma =
     (if K = 0 then Inl ZeroDivisionError
      else let d1 = d1_value S0 K T r sigma in
        Inr (fl_lift (\<lambda>p. (S0 * sqrt T * p) / 100) (np_pdf d1)))"

section \<open>Monte Carlo method (notebook 4.4)\<close>

text \<open>
  \<open>np.mean\<close> of a one-dimensional array, and \<open>ss.sem\<close>, scipy's standard error of the
  mean with its default \<open>ddof=1\<close>: \<open>np.std(a, ddof=1) / np.sqrt(n)\<close>, where
  \<open>np.std(a, ddof=1)\<close> is \<open>sqrt (sum ((a - mean a)\<^sup>2) / (n - 1))\<close>. The mean of an empty
  array and the standard error of fewer than two values are \<open>nan\<close>.
\<close>

definition np_mean :: "real list \<Rightarrow> npfloat" where
  "np_mean a = (if a = [] then NonFinite else Finite (sum_list a / real (length a)))"

definition ss_sem :: "real list \<Rightarrow> npfloat" where
  "ss_sem a =
     (let n = length a in
      if n < 2 then NonFinite
      else let m = sum_list a / real n in
        Finite (sqrt (sum_list (map (\<lambda>x. (x - m)\<^sup>2) a) / real (n - 1)) / sqrt (real n)))"

text \<open>
  \<^verbatim>\<open>
  def monte_carlo_method(S0, K, T, r, sigma, M, payoff='call', seed=None):
      W = ss.norm.rvs(loc=(r-sigma**2/2)*T, scale=sigma*np.sqrt(T), size=M, random_state=seed)
      ST = S0 * np.exp(W)
      if payoff == 'call':
          payoffs = np.exp(-r * T) * np.maximum(ST - K, 0)
          std_err = ss.sem(np.exp(-r * T) * np.maximum(ST - K, 0))
      elif payoff == 'put':
          payoffs = np.exp(-r * T) * np.maximum(K - ST, 0)
          std_err = ss.sem(np.exp(-r * T) * np.maximum(K - ST, 0))
      else:
          raise ValueError("Invalid payoff type. Specify 'call' or 'put'!")
      V = np.mean(payoffs)
      return V, std_err
  \<close>
  The sampler is outside the model: the array \<open>W\<close> it returns takes the place of the
  arguments \<open>M\<close> and \<open>seed\<close>, and \<open>M\<close> is the length of \<open>W\<close>. (scipy checks \<open>scale\<close> before it
  draws; a call whose sampler raises returns no \<open>W\<close> and is not a run of this model.)
\<close>

definition terminal_prices :: "real \<Rightarrow> real list \<Rightarrow> real list" where
  "terminal_prices S0 W = map (\<lambda>w. S0 * exp w) W"

definition monte_carlo_method ::
  "real \<Rightarrow> real \<Rightarrow> real \<Rightarrow> real \<Rightarrow> real \<Rightarrow> real list \<Rightarrow> string \<Rightarrow> error + npfloat \<times> npfloat" where
  "monte_carlo_method S0 K T r sigma W payoff =
     (let ST = terminal_prices S0 W in
      if payoff = ''call'' then
        let payoffs = map (\<lambda>s. exp (- r * T) * max (s - K) 0) ST;
            std_err = ss_sem (map (\<lambda>s. exp (- r * T) * max (s - K) 0) ST)
        in Inr (np_mean payoffs, std_err)
      else if payoff = ''put'' then
        let payoffs = map (\<lambda>s. exp (- r * T) * max (K - s) 0) ST;
            std_err = ss_sem (map (\<lambda>s. exp (- r * T) * max (K - s) 0) ST)
        in Inr (np_mean payoffs, std_err)
      else Inl ValueError)"

text \<open>
  What the specification asks of the estimate, in its own words: over the sampled
  terminal prices \<open>ST 0, \<dots>, ST (M - 1)\<close>, the arithmetic mean of the discounted payoffs
  and their sample standard deviation divided by \<open>sqrt M\<close>.
\<close>

definition spec_discounted_payoff :: "string \<Rightarrow> real \<Rightarrow> real \<Rightarrow> real \<Rightarrow> real \<Rightarrow> real" where
  "spec_discounted_payoff payoff K T r s =
     (if payoff = ''call'' then exp (- r * T) * max (s - K) 0 else exp (- r * T) * max (K - s) 0)"

definition spec_mean :: "(nat \<Rightarrow> real) \<Rightarrow> nat \<Rightarrow> real" where
  "spec_mean x M = (\<Sum>i<M. x i) / real M"

definition spec_sample_sd :: "(nat \<Rightarrow> real) \<Rightarrow> nat \<Rightarrow> real" where
  "spec_sample_sd x M = sqrt ((\<Sum>i<M. (x i - spec_mean x M)\<^sup>2) / (real M - 1))"

section \<open>Binomial method (notebook 4.4)\<close>

text \<open>
  \<^verbatim>\<open>
  def binomial_method(S0, K, T, r, sigma, N, payoff='call'):
      dt = T / N                         # time step increment
      u = np.exp(sigma * np.sqrt(dt))    # up factor
      d = 1.0 / u                        # down factor
      V = np.zeros(N + 1)
      ST = np.array([S0 * u**j * d**(N - j) for j in range(N + 1)])
      p = (np.exp(r * dt) - d) / (u - d)
      q = 1.0 - p
      if payoff == 'call':
          V[:] = np.maximum(ST - K, 0.0)
      elif payoff == 'put':
          V[:] = np.maximum(K - ST, 0.0)
      else:
          raise ValueError("Invalid payoff type. Specify 'call' or 'put'!")
      for i in range(N - 1, -1, -1):
          V[:-1] = np.exp(-r * dt) * (p * V[1:] + q * V[:-1])
      return V[0]
  \<close>
  The assignment \<open>V[:-1] = \<dots>\<close> evaluates its right-hand side on the old array and
  writes every entry but the last; \<open>backward_step\<close> is one such assignment and
  \<open>backward_iteration\<close> the loop, whose variable \<open>i\<close> the body does not read.
\<close>

definition vanilla_payoffs :: "string \<Rightarrow> real \<Rightarrow> real list \<Rightarrow> error + real list" where
  "vanilla_payoffs payoff K ST =
     (if payoff = ''call'' then Inr (map (\<lambda>s. max (s - K) 0) ST)
      else if payoff = ''put'' then Inr (map (\<lambda>s. max (K - s) 0) ST)
      else Inl ValueError)"

definition backward_step :: "real \<Rightarrow> real \<Rightarrow> real \<Rightarrow> real list \<Rightarrow> real list" where
  "backward_step disc p q V =
     map2 (\<lambda>up down. disc * (p * up + q * down)) (tl V) (butlast V) @ [last V]"

definition backward_iteration :: "real \<Rightarrow> real \<Rightarrow> real \<Rightarrow> nat \<Rightarrow> real list \<Rightarrow> real list" where
  "backward_iteration disc p q N V = fold (\<lambda>i V. backward_step disc p q V) (rev [0..<N]) V"

definition binomial_method ::
  "real \<Rightarrow> real \<Rightarrow> real \<Rightarrow> real \<Rightarrow> real \<Rightarrow> int \<Rightarrow> string \<Rightarrow> error + npfloat" where
  "binomial_method S0 K T r sigma N payoff =
     (if N = 0 then Inl ZeroDivisionError \<comment> \<open>\<open>T / N\<close>, a Python float by a Python int\<close>
      else if N + 1 < 0 then Inl ValueError \<comment> \<open>\<open>np.zeros\<close> of a negative dimension\<close>
      else
        let dt = T / real_of_int N;
            u = exp (sigma * sqrt dt);
            d = 1 / u;
            ST = map (\<lambda>j. S0 * u ^ j * d ^ (nat N - j)) [0..<nat (N + 1)];
            p = (exp (r * dt) - d) / (u - d);
            q = 1 - p
        in case vanilla_payoffs payoff K ST of
             Inl e \<Rightarrow> Inl e
           | Inr V0 \<Rightarrow>
               if N < 0 then Inl IndexError \<comment> \<open>\<open>N = -1\<close>: \<open>V\<close> is empty and \<open>V[0]\<close> raises\<close>
               else if dt < 0 \<or> sigma * sqrt dt = 0 then Inr NonFinite
                 \<comment> \<open>\<open>np.sqrt\<close> of a negative \<open>dt\<close>, or \<open>u - d = 0\<close> in the division\<close>
               else Inr (Finite (backward_iteration (exp (- r * dt)) p q (nat N) V0 ! 0)))"

text \<open>
  The tree of the specification: the node of layer \<open>n\<close> reached by \<open>j\<close> up-moves. A node
  of the terminal layer \<open>N\<close> has the payoff at \<open>S0 * u^j * d^(N - j)\<close>; an interior node has
  the discounted expectation \<open>disc * (p * V_up + (1 - p) * V_down)\<close> of its two children
  in layer \<open>n + 1\<close>, the upper one with \<open>j + 1\<close> up-moves and the lower one with \<open>j\<close>.
\<close>

function tree_value ::
  "(real \<Rightarrow> real) \<Rightarrow> real \<Rightarrow> real \<Rightarrow> real \<Rightarrow> real \<Rightarrow> real \<Rightarrow> nat \<Rightarrow> nat \<Rightarrow> nat \<Rightarrow> real" where
  "tree_value pay S0 u d disc p N n j =
     (if N \<le> n then pay (S0 * u ^ j * d ^ (N - j))
      else disc * (p * tree_value pay S0 u d disc p N (Suc n) (Suc j)
                   + (1 - p) * tree_value pay S0 u d disc p N (Suc n) j))"
  by pat_completeness auto
termination
  by (relation "measure (\<lambda>(pay, S0, u, d, disc, p, N, n, j). N - n)") auto

declare tree_value.simps [simp del]

definition spec_payoff :: "string \<Rightarrow> real \<Rightarrow> real \<Rightarrow> real" where
  "spec_payoff payoff K s = (if payoff = ''call'' then max (s - K) 0 else max (K - s) 0)"

section \<open>American put by simulation (notebook 5.4)\<close>

text \<open>
  \<^verbatim>\<open>
  dt = T / N
  S = np.zeros((N+1, paths))
  S[0, :] = S0
  Z = ss.norm.rvs(loc=0, scale=1, size=(N, paths), random_state=42)
  for i in range(1, N+1):
      S[i, :] = S[i-1, :] * np.exp((r - sigma**2 / 2) * dt + sigma * np.sqrt(dt) * Z[i-1, :])
  payoffs = np.maximum(K - S, 0)
  option_values = payoffs[-1, :]
  for i in range(N-1, -1, -1):
      discounted_payoff = np.exp(-r * dt) * option_values
      option_values = np.maximum(payoffs[i, :], discounted_payoff)
  american_put = np.mean(option_values)
  american_put_std_err = ss.sem(option_values)
  \<close>
  The cell is a script over the notebook's parameters; the model makes them arguments,
  \<open>N\<close> and \<open>paths\<close> natural numbers as in the cell. A two-dimensional array is the list
  of its rows. The sampler is outside the model: \<open>normal_draws Zf N paths\<close> is the array
  of shape \<open>(N, paths)\<close> it returns, with entry \<open>[i, j]\<close> equal to \<open>Zf i j\<close>. \<open>gbm_step\<close> and
  \<open>simulate_paths\<close> are the first loop for \<open>dt \<ge> 0\<close>, where \<open>np.sqrt\<close> is the real square root;
  \<open>american_put_mc\<close> returns \<open>NonFinite\<close> for a negative \<open>dt\<close>.
\<close>

definition normal_draws :: "(nat \<Rightarrow> nat \<Rightarrow> real) \<Rightarrow> nat \<Rightarrow> nat \<Rightarrow> real list list" where
  "normal_draws Zf N paths = map (\<lambda>i. map (Zf i) [0..<paths]) [0..<N]"

definition gbm_step :: "real \<Rightarrow> real \<Rightarrow> real \<Rightarrow> real list \<Rightarrow> real list \<Rightarrow> real list" where
  "gbm_step dt r sigma Sprev Zrow =
     map2 (\<lambda>s z. s * exp ((r - sigma\<^sup>2 / 2) * dt + sigma * sqrt dt * z)) Sprev Zrow"

definition simulate_paths ::
  "real \<Rightarrow> real \<Rightarrow> real \<Rightarrow> real \<Rightarrow> nat \<Rightarrow> nat \<Rightarrow> real list list \<Rightarrow> real list list" where
  "simulate_paths S0 dt r sigma N paths Z =
     fold (\<lambda>i S. S[i := gbm_step dt r sigma (S ! (i - 1)) (Z ! (i - 1))]) [1..<N + 1]
       ((replicate (N + 1) (replicate paths 0))[0 := replicate paths S0])"

definition exercise_values :: "real \<Rightarrow> real \<Rightarrow> nat \<Rightarrow> real list list \<Rightarrow> real list" where
  "exercise_values r dt N payoffs =
     fold (\<lambda>i option_values.
             let discounted_payoff = map (\<lambda>v. exp (- r * dt) * v) option_values
             in map2 max (payoffs ! i) discounted_payoff)
       (rev [0..<N]) (last payoffs)"

definition american_put_mc ::
  "real \<Rightarrow> real \<Rightarrow> real \<Rightarrow> real \<Rightarrow> real \<Rightarrow> nat \<Rightarrow> nat \<Rightarrow> (nat \<Rightarrow> nat \<Rightarrow> real)
     \<Rightarrow> error + npfloat \<times> npfloat" where
  "american_put_mc S0 K T r sigma N paths Zf =
     (if N = 0 then Inl ZeroDivisionError \<comment> \<open>\<open>T / N\<close>\<close>
      else
        let dt = T / real N in
        if dt < 0 then Inr (NonFinite, NonFinite) \<comment> \<open>\<open>np.sqrt\<close> of a negative \<open>dt\<close>\<close>
        else
          let S = simulate_paths S0 dt r sigma N paths (normal_draws Zf N paths);
              payoffs = map (map (\<lambda>s. max (K - s) 0)) S;
              option_values = exercise_values r dt N payoffs
          in Inr (np_mean option_values, ss_sem option_values))"

text \<open>
  The logarithmic increment of path \<open>j\<close> aggregated over its first \<open>i\<close> steps: \<open>i\<close> times the
  drift \<open>(r - sigma\<^sup>2 / 2) * dt\<close> plus \<open>sigma * sqrt dt\<close> times the sum of the draws
  \<open>Z\<^sub>1 + \<dots> + Z\<^sub>i\<close> of the path.
\<close>

definition aggregated_increment ::
  "real \<Rightarrow> real \<Rightarrow> real \<Rightarrow> (nat \<Rightarrow> nat \<Rightarrow> real) \<Rightarrow> nat \<Rightarrow> nat \<Rightarrow> real" where
  "aggregated_increment dt r sigma Zf i j =
     (r - sigma\<^sup>2 / 2) * (dt * real i) + sigma * sqrt dt * (\<Sum>l<i. Zf l j)"

text \<open>
  The European put value over the same paths, in the specification's words: the average
  over the paths of \<open>exp (- r * T) * max (K - S\<^sub>N) 0\<close>, with \<open>S\<^sub>N\<close> the last row of the
  simulated prices.
\<close>

definition european_put_same_paths :: "real \<Rightarrow> real \<Rightarrow> real \<Rightarrow> real list \<Rightarrow> real" where
  "european_put_same_paths K T r SN =
     (\<Sum>j<length SN. exp (- r * T) * max (K - SN ! j) 0) / real (length SN)"

section \<open>The normal distribution function\<close>

lemma cdf_coeff_odd: "(2 * real n + 1) * cdf_coeff n = (- 1 / 2) ^ n / fact n"
  by (simp add: cdf_coeff_def)

lemma summable_cdf_series: "summable (\<lambda>n. cdf_coeff n * y ^ n)"
proof (rule summable_comparison_test')
  show "summable (\<lambda>n. inverse (fact n) * \<bar>y\<bar> ^ n)"
    by (rule summable_exp)
  show "norm (cdf_coeff n * y ^ n) \<le> inverse (fact n) * \<bar>y\<bar> ^ n" if "n \<ge> 0" for n
  proof -
    have "\<bar>cdf_coeff n\<bar> = (1 / 2) ^ n / (fact n * (2 * real n + 1))"
      by (simp add: cdf_coeff_def abs_mult power_abs)
    also have "\<dots> \<le> 1 / fact n"
    proof -
      have "(1 / 2 :: real) ^ n \<le> 1" by (simp add: power_le_one)
      moreover have "(fact n :: real) \<le> fact n * (2 * real n + 1)" by simp
      ultimately show ?thesis
        by (intro frac_le) simp_all
    qed
    finally have "\<bar>cdf_coeff n\<bar> * \<bar>y\<bar> ^ n \<le> 1 / fact n * \<bar>y\<bar> ^ n"
      by (intro mult_right_mono) simp_all
    then show ?thesis
      by (simp add: abs_mult power_abs inverse_eq_divide)
  qed
qed

lemma cdf_series_deriv:
  "DERIV (\<lambda>y. \<Sum>n. cdf_coeff n * y ^ n) y :> (\<Sum>n. diffs cdf_coeff n * y ^ n)"
  by (rule termdiffs_strong_converges_everywhere) (rule summable_cdf_series)

lemma cdf_series_ode:
  "(\<Sum>n. cdf_coeff n * y ^ n) + 2 * y * (\<Sum>n. diffs cdf_coeff n * y ^ n) = exp (- y / 2)"
proof -
  let ?h = "\<Sum>n. cdf_coeff n * y ^ n" and ?h' = "\<Sum>n. diffs cdf_coeff n * y ^ n"
  define t where "t n = 2 * real n * cdf_coeff n * y ^ n" for n
  have h: "(\<lambda>n. cdf_coeff n * y ^ n) sums ?h"
    using summable_cdf_series by (rule summable_sums)
  have "summable (\<lambda>n. diffs cdf_coeff n * y ^ n)"
    by (rule termdiff_converges_all) (rule summable_cdf_series)
  then have "(\<lambda>n. diffs cdf_coeff n * y ^ n) sums ?h'"
    by (rule summable_sums)
  then have "(\<lambda>n. 2 * y * (diffs cdf_coeff n * y ^ n)) sums (2 * y * ?h')"
    by (rule sums_mult)
  moreover have "2 * y * (diffs cdf_coeff n * y ^ n) = t (Suc n)" for n
    by (simp add: t_def diffs_def algebra_simps)
  ultimately have "(\<lambda>n. t (Suc n)) sums (2 * y * ?h')"
    by simp
  then have "t sums (2 * y * ?h' + t 0)"
    by (simp only: sums_Suc_iff)
  then have "t sums (2 * y * ?h')"
    by (simp add: t_def)
  with h have "(\<lambda>n. cdf_coeff n * y ^ n + t n) sums (?h + 2 * y * ?h')"
    by (rule sums_add)
  moreover have "cdf_coeff n * y ^ n + t n = (- y / 2) ^ n /\<^sub>R fact n" for n
  proof -
    have "cdf_coeff n * y ^ n + t n = ((2 * real n + 1) * cdf_coeff n) * y ^ n"
      by (simp add: t_def algebra_simps)
    also have "\<dots> = (- 1 / 2) ^ n / fact n * y ^ n"
      by (simp only: cdf_coeff_odd)
    also have "\<dots> = (- y / 2) ^ n /\<^sub>R fact n"
    proof -
      define q where "q = (- y / 2) ^ n"
      have "- y / 2 = (- 1 / 2) * y"
        by simp
      then have "(- 1 / 2) ^ n * y ^ n = q"
        unfolding q_def by (simp only: power_mult_distrib)
      moreover have "(- 1 / 2) ^ n / fact n * y ^ n = ((- 1 / 2) ^ n * y ^ n) / fact n"
        by simp
      ultimately have "(- 1 / 2) ^ n / fact n * y ^ n = q / fact n"
        by (simp only:)
      also have "\<dots> = q /\<^sub>R fact n"
        by (simp add: divide_inverse)
      finally show ?thesis
        by (simp only: q_def)
    qed
    finally show ?thesis .
  qed
  ultimately have "(\<lambda>n. (- y / 2) ^ n /\<^sub>R fact n) sums (?h + 2 * y * ?h')"
    by simp
  then show ?thesis
    using exp_converges [of "- y / 2"] by (rule sums_unique2)
qed

lemma scaled_product_deriv:
  fixes H :: "real \<Rightarrow> real"
  assumes "DERIV H x :> D"
  shows "DERIV (\<lambda>x. 1 / 2 + x / c * H x) x :> (H x + x * D) / c"
proof -
  have "DERIV (\<lambda>x. x * H x) x :> 1 * H x + D * x"
    using DERIV_mult [OF DERIV_ident assms] .
  then have "DERIV (\<lambda>x. inverse c * (x * H x)) x :> inverse c * (1 * H x + D * x)"
    by (rule DERIV_cmult)
  then have "DERIV (\<lambda>x. 1 / 2 + inverse c * (x * H x)) x :> 0 + inverse c * (1 * H x + D * x)"
    by (intro DERIV_add DERIV_const)
  moreover have "(\<lambda>x. 1 / 2 + x / c * H x) = (\<lambda>x. 1 / 2 + inverse c * (x * H x))"
    by (rule ext) (simp only: divide_inverse [of _ c] mult_ac)
  moreover have "(H x + x * D) / c = 0 + inverse c * (1 * H x + D * x)"
    by (simp only: divide_inverse [of _ c] mult_ac add_0 mult_1)
  ultimately show ?thesis
    by (simp only:)
qed

lemma norm_cdf_deriv: "DERIV norm_cdf x :> norm_pdf x"
proof -
  define h where "h y = (\<Sum>n. cdf_coeff n * y ^ n)" for y
  define h' where "h' y = (\<Sum>n. diffs cdf_coeff n * y ^ n)" for y
  have ode: "h y + 2 * y * h' y = exp (- y / 2)" for y
    unfolding h_def h'_def by (rule cdf_series_ode)
  have "DERIV h y :> h' y" for y
    unfolding h_def [abs_def] h'_def by (rule cdf_series_deriv)
  moreover have "DERIV (\<lambda>x. x\<^sup>2) x :> 2 * x"
    by (auto intro!: derivative_eq_intros)
  ultimately have "DERIV (\<lambda>x. h (x\<^sup>2)) x :> h' (x\<^sup>2) * (2 * x)"
    by (rule DERIV_chain2)
  then have "DERIV (\<lambda>x. 1 / 2 + x / sqrt (2 * pi) * h (x\<^sup>2)) x
      :> (h (x\<^sup>2) + x * (h' (x\<^sup>2) * (2 * x))) / sqrt (2 * pi)"
    by (rule scaled_product_deriv)
  moreover have "h (x\<^sup>2) + x * (h' (x\<^sup>2) * (2 * x)) = h (x\<^sup>2) + 2 * x\<^sup>2 * h' (x\<^sup>2)"
    by (simp add: power2_eq_square)
  moreover have "norm_cdf = (\<lambda>x. 1 / 2 + x / sqrt (2 * pi) * h (x\<^sup>2))"
    by (rule ext) (simp add: norm_cdf_def h_def)
  ultimately have "DERIV norm_cdf x :> exp (- (x\<^sup>2) / 2) / sqrt (2 * pi)"
    by (simp only: ode)
  then show ?thesis
    by (simp only: norm_pdf_def)
qed

lemma norm_cdf_zero: "norm_cdf 0 = 1 / 2"
  by (simp add: norm_cdf_def)

section \<open>Properties of the closed formula\<close>

lemma norm_cdf_minus: "norm_cdf (- x) = 1 - norm_cdf x"
  by (simp add: norm_cdf_def)

lemma d1_value_num:
  "0 < S0 / K \<Longrightarrow> 0 < T \<Longrightarrow> sigma \<noteq> 0 \<Longrightarrow> d1_value S0 K T r sigma = Num (bs_d1 S0 K T r sigma)"
  by (simp add: d1_value_def np_log_def ieee_add_def np_divide_def bs_d1_def)

lemma d2_value_num:
  "0 < S0 / K \<Longrightarrow> 0 < T \<Longrightarrow> sigma \<noteq> 0 \<Longrightarrow> d2_value S0 K T r sigma = Num (bs_d2 S0 K T r sigma)"
  by (simp add: d2_value_def d1_value_num ieee_add_def bs_d2_def)

lemma closed_formula_num:
  assumes "0 < S0 / K" "0 < T" "sigma \<noteq> 0"
  shows "closed_formula S0 K T r sigma ''call''
           = Inr (Some (Finite (S0 * norm_cdf (bs_d1 S0 K T r sigma)
                                - K * exp (- r * T) * norm_cdf (bs_d2 S0 K T r sigma))))"
    and "closed_formula S0 K T r sigma ''put''
           = Inr (Some (Finite (K * exp (- r * T) * norm_cdf (- bs_d2 S0 K T r sigma)
                                - S0 * norm_cdf (- bs_d1 S0 K T r sigma))))"
proof -
  from assms(1) have "K \<noteq> 0" by auto
  then show "closed_formula S0 K T r sigma ''call''
           = Inr (Some (Finite (S0 * norm_cdf (bs_d1 S0 K T r sigma)
                                - K * exp (- r * T) * norm_cdf (bs_d2 S0 K T r sigma))))"
    and "closed_formula S0 K T r sigma ''put''
           = Inr (Some (Finite (K * exp (- r * T) * norm_cdf (- bs_d2 S0 K T r sigma)
                                - S0 * norm_cdf (- bs_d1 S0 K T r sigma))))"
    by (simp_all add: closed_formula_def d1_value_num [OF assms] d2_value_num [OF assms]
        np_cdf_def ieee_uminus_def fl_lift2_def)
qed

lemma valid_ratio: "0 < S0 \<Longrightarrow> 0 < K \<Longrightarrow> 0 < S0 / (K :: real)"
  by simp

text \<open>
  C1. For \<open>S0 > 0\<close>, \<open>K > 0\<close>, \<open>T > 0\<close>, \<open>sigma > 0\<close> and any \<open>r\<close>, \<open>closed_formula\<close> returns
  \<open>S0 * \<Phi> d1 - K * exp (- r * T) * \<Phi> d2\<close> for a call and
  \<open>K * exp (- r * T) * \<Phi> (- d2) - S0 * \<Phi> (- d1)\<close> for a put, with
  \<open>d1 = (ln (S0 / K) + (r + sigma\<^sup>2 / 2) * T) / (sigma * sqrt T)\<close>,
  \<open>d2 = d1 - sigma * sqrt T\<close> and \<open>\<Phi>\<close> the standard normal distribution function.
\<close>

theorem closed_formula_value:
  fixes S0 K T r sigma :: real
  assumes "0 < S0" "0 < K" "0 < T" "0 < sigma"
  defines "d1 \<equiv> (ln (S0 / K) + (r + sigma\<^sup>2 / 2) * T) / (sigma * sqrt T)"
  defines "d2 \<equiv> d1 - sigma * sqrt T"
  shows "closed_formula S0 K T r sigma ''call''
           = Inr (Some (Finite (S0 * norm_cdf d1 - K * exp (- r * T) * norm_cdf d2)))
       \<and> closed_formula S0 K T r sigma ''put''
           = Inr (Some (Finite (K * exp (- r * T) * norm_cdf (- d2) - S0 * norm_cdf (- d1))))"
proof -
  have ratio: "0 < S0 / K"
    using assms(1,2) by (rule valid_ratio)
  have sigma: "sigma \<noteq> 0"
    using assms(4) by simp
  have d1: "bs_d1 S0 K T r sigma = d1"
    by (simp add: bs_d1_def d1_def)
  have d2: "bs_d2 S0 K T r sigma = d2"
    by (simp add: bs_d2_def d1 d2_def)
  show ?thesis
    using closed_formula_num [OF ratio assms(3) sigma, of r] by (simp only: d1 d2)
qed

theorem closed_formula_value_witness:
  "closed_formula 1 1 1 0 1 ''call''
     = Inr (Some (Finite (1 * norm_cdf ((ln (1 / 1) + (0 + 1\<^sup>2 / 2) * 1) / (1 * sqrt 1))
         - 1 * exp (- 0 * 1) * norm_cdf ((ln (1 / 1) + (0 + 1\<^sup>2 / 2) * 1) / (1 * sqrt 1) - 1 * sqrt 1))))"
  using closed_formula_value [of 1 1 1 1 0] by simp

text \<open>
  C4. Put-call parity: for \<open>S0 > 0\<close>, \<open>K > 0\<close>, \<open>T > 0\<close>, \<open>sigma > 0\<close> and any \<open>r\<close>, both
  closed-form prices are numbers and the call price minus the put price is
  \<open>S0 - K * exp (- r * T)\<close>.
\<close>

theorem put_call_parity:
  assumes "0 < S0" "0 < K" "0 < T" "0 < sigma"
  shows "\<exists>c p. closed_formula S0 K T r sigma ''call'' = Inr (Some (Finite c))
             \<and> closed_formula S0 K T r sigma ''put'' = Inr (Some (Finite p))
             \<and> c - p = S0 - K * exp (- r * T)"
proof -
  have ratio: "0 < S0 / K"
    using assms(1,2) by (rule valid_ratio)
  have sigma: "sigma \<noteq> 0"
    using assms(4) by simp
  let ?d1 = "bs_d1 S0 K T r sigma" and ?d2 = "bs_d2 S0 K T r sigma"
  let ?c = "S0 * norm_cdf ?d1 - K * exp (- r * T) * norm_cdf ?d2"
  let ?p = "K * exp (- r * T) * norm_cdf (- ?d2) - S0 * norm_cdf (- ?d1)"
  have "closed_formula S0 K T r sigma ''call'' = Inr (Some (Finite ?c))"
    using ratio assms(3) sigma by (rule closed_formula_num(1))
  moreover have "closed_formula S0 K T r sigma ''put'' = Inr (Some (Finite ?p))"
    using ratio assms(3) sigma by (rule closed_formula_num(2))
  moreover have "?c - ?p = S0 - K * exp (- r * T)"
    by (simp add: norm_cdf_minus algebra_simps)
  ultimately show ?thesis by blast
qed

theorem put_call_parity_witness:
  "\<exists>c p. closed_formula 100 100 1 (4 / 100) (2 / 10) ''call'' = Inr (Some (Finite c))
        \<and> closed_formula 100 100 1 (4 / 100) (2 / 10) ''put'' = Inr (Some (Finite p))
        \<and> c - p = 100 - 100 * exp (- (4 / 100) * 1)"
  using put_call_parity [of 100 100 1 "2 / 10" "4 / 100"] by simp

section \<open>Properties of the Greeks, the payoff selector and the Monte Carlo estimate\<close>

lemma str_lower_call: "str_lower ''call'' = ''call''"
  by (simp add: str_lower_def lower_char_def)

lemma str_lower_put: "str_lower ''put'' = ''put''"
  by (simp add: str_lower_def lower_char_def)

text \<open>
  C10. For \<open>S0 > 0\<close>, \<open>K > 0\<close>, \<open>T > 0\<close>, \<open>sigma > 0\<close> and any \<open>r\<close>, the put delta is the call
  delta minus one (\<open>\<Phi> d1 - 1\<close> against \<open>\<Phi> d1\<close>); \<open>calculate_gamma\<close> and \<open>calculate_vega\<close>
  take no payoff argument, so one value of each serves call and put.
\<close>

theorem delta_parity:
  fixes S0 K T r sigma :: real
  assumes "0 < S0" "0 < K" "0 < T" "0 < sigma"
  defines "d1 \<equiv> (ln (S0 / K) + (r + sigma\<^sup>2 / 2) * T) / (sigma * sqrt T)"
  shows "calculate_delta S0 K T r sigma ''call'' = Inr (Some (Finite (norm_cdf d1)))
       \<and> calculate_delta S0 K T r sigma ''put'' = Inr (Some (Finite (norm_cdf d1 - 1)))
       \<and> calculate_gamma S0 K T r sigma = Inr (Finite (norm_pdf d1 / (S0 * sigma * sqrt T)))
       \<and> calculate_vega S0 K T r sigma = Inr (Finite (S0 * sqrt T * norm_pdf d1 / 100))"
proof -
  have ratio: "0 < S0 / K"
    using assms(1,2) by (rule valid_ratio)
  have sigma: "sigma \<noteq> 0"
    using assms(4) by simp
  have "bs_d1 S0 K T r sigma = d1"
    by (simp add: bs_d1_def d1_def)
  then have d1: "d1_value S0 K T r sigma = Num d1"
    using d1_value_num [OF ratio assms(3) sigma, of r] by simp
  from assms(2) have K: "K \<noteq> 0" by simp
  have divisor: "S0 * sigma * sqrt T \<noteq> 0"
    using assms(1,3,4) by simp
  have "calculate_delta S0 K T r sigma ''call'' = Inr (Some (Finite (norm_cdf d1)))"
    by (simp add: calculate_delta_def K d1 str_lower_call np_cdf_def)
  moreover have "calculate_delta S0 K T r sigma ''put'' = Inr (Some (Finite (norm_cdf d1 - 1)))"
    by (simp add: calculate_delta_def K d1 str_lower_put np_cdf_def fl_lift_def)
  moreover have "calculate_gamma S0 K T r sigma = Inr (Finite (norm_pdf d1 / (S0 * sigma * sqrt T)))"
    using divisor by (simp add: calculate_gamma_def K d1 np_pdf_def)
  moreover have "calculate_vega S0 K T r sigma = Inr (Finite (S0 * sqrt T * norm_pdf d1 / 100))"
    by (simp add: calculate_vega_def K d1 np_pdf_def fl_lift_def)
  ultimately show ?thesis by blast
qed

theorem delta_parity_witness:
  "calculate_delta 100 100 1 (4 / 100) (2 / 10) ''call''
     = Inr (Some (Finite (norm_cdf ((ln (100 / 100) + (4 / 100 + (2 / 10)\<^sup>2 / 2) * 1) / (2 / 10 * sqrt 1)))))
   \<and> calculate_delta 100 100 1 (4 / 100) (2 / 10) ''put''
     = Inr (Some (Finite (norm_cdf ((ln (100 / 100) + (4 / 100 + (2 / 10)\<^sup>2 / 2) * 1) / (2 / 10 * sqrt 1)) - 1)))"
  using delta_parity [of 100 100 1 "2 / 10" "4 / 100"] by simp

text \<open>
  C5. An unsupported payoff selector must be reported to the caller at once by each of the
  three pricers. \<open>monte_carlo_method\<close> and \<open>binomial_method\<close> raise \<open>ValueError\<close>;
  \<open>closed_formula\<close> has no \<open>else\<close> branch and returns \<open>None\<close> without an error, as the
  evaluation at the notebook's parameters with the selector \<open>straddle\<close> shows.
\<close>

theorem closed_formula_unknown_payoff:
  "closed_formula 100 100 1 (4 / 100) (2 / 10) ''straddle'' = Inr None"
  by (simp add: closed_formula_def)

lemma monte_carlo_method_unknown_payoff:
  "payoff \<noteq> ''call'' \<Longrightarrow> payoff \<noteq> ''put'' \<Longrightarrow> monte_carlo_method S0 K T r sigma W payoff = Inl ValueError"
  by (simp add: monte_carlo_method_def)

lemma binomial_method_unknown_payoff:
  "1 \<le> N \<Longrightarrow> payoff \<noteq> ''call'' \<Longrightarrow> payoff \<noteq> ''put'' \<Longrightarrow> binomial_method S0 K T r sigma N payoff = Inl ValueError"
  by (simp add: binomial_method_def vanilla_payoffs_def Let_def)

lemma closed_formula_infinite_d1:
  assumes "K \<noteq> 0"
  shows "d1_value S0 K T r sigma = PosInf \<Longrightarrow>
           closed_formula S0 K T r sigma ''call'' = Inr (Some (Finite (S0 - K * exp (- r * T))))
         \<and> closed_formula S0 K T r sigma ''put'' = Inr (Some (Finite 0))"
    and "d1_value S0 K T r sigma = NegInf \<Longrightarrow>
           closed_formula S0 K T r sigma ''call'' = Inr (Some (Finite 0))
         \<and> closed_formula S0 K T r sigma ''put'' = Inr (Some (Finite (K * exp (- r * T) - S0)))"
    and "d1_value S0 K T r sigma = NaN \<Longrightarrow>
           closed_formula S0 K T r sigma ''call'' = Inr (Some NonFinite)
         \<and> closed_formula S0 K T r sigma ''put'' = Inr (Some NonFinite)"
  using assms
  by (simp_all add: closed_formula_def d2_value_def ieee_add_def ieee_uminus_def np_cdf_def
      fl_lift2_def)

lemma d1_value_zero_divisor:
  fixes S0 K T r sigma :: real
  assumes "0 < S0 / K" "0 \<le> T" "sigma * sqrt T = 0"
  defines "m \<equiv> ln (S0 / K) + (r + sigma\<^sup>2 / 2) * T"
  shows "d1_value S0 K T r sigma
           = (if m = 0 then NaN
              else if (0 < m) = (\<not> (sigma < 0 \<and> T = 0)) then PosInf else NegInf)"
  using assms(1-3)
  by (simp add: d1_value_def np_log_def ieee_add_def np_divide_def m_def)

text \<open>
  C6. The claim that \<open>closed_formula\<close> fails for every non-positive \<open>sigma\<close> or \<open>T\<close> does not
  hold. With the notebook's rate and maturity it returns a number at \<open>sigma = - 0.2\<close>, and
  at \<open>sigma = 0\<close> for a spot of 110; so it does at \<open>T = 0\<close> for that spot.
\<close>

theorem closed_formula_nonpositive_inputs:
  "closed_formula 100 100 1 (4 / 100) (- (2 / 10)) ''call''
     = Inr (Some (Finite (100 * norm_cdf (- (3 / 10)) - 100 * exp (- (4 / 100)) * norm_cdf (- (1 / 10)))))
   \<and> closed_formula 110 100 1 (4 / 100) 0 ''call''
     = Inr (Some (Finite (110 - 100 * exp (- (4 / 100)))))
   \<and> closed_formula 110 100 0 (4 / 100) (2 / 10) ''call'' = Inr (Some (Finite 10))"
proof (intro conjI)
  have "closed_formula 100 100 1 (4 / 100) (- (2 / 10)) ''call''
      = Inr (Some (Finite (100 * norm_cdf (bs_d1 100 100 1 (4 / 100) (- (2 / 10)))
          - 100 * exp (- (4 / 100) * 1) * norm_cdf (bs_d2 100 100 1 (4 / 100) (- (2 / 10))))))"
    by (rule closed_formula_num(1)) simp_all
  then show "closed_formula 100 100 1 (4 / 100) (- (2 / 10)) ''call''
     = Inr (Some (Finite (100 * norm_cdf (- (3 / 10)) - 100 * exp (- (4 / 100)) * norm_cdf (- (1 / 10)))))"
    by (simp add: bs_d1_def bs_d2_def power2_eq_square)
next
  have "0 < ln (11 / 10 :: real)"
    by (rule ln_gt_zero) simp
  then have "0 < ln (11 / 10 :: real) + 1 / 25" and "ln (11 / 10 :: real) + 1 / 25 \<noteq> 0"
    by linarith+
  then have "d1_value 110 100 1 (4 / 100) 0 = PosInf"
    using d1_value_zero_divisor [of 110 100 1 0 "4 / 100"] by simp
  then show "closed_formula 110 100 1 (4 / 100) 0 ''call''
     = Inr (Some (Finite (110 - 100 * exp (- (4 / 100)))))"
    using closed_formula_infinite_d1(1) [of 100 110 1 "4 / 100" 0] by simp
next
  have "0 < ln (11 / 10 :: real)"
    by (rule ln_gt_zero) simp
  then have "0 < ln (11 / 10 :: real)" and "ln (11 / 10 :: real) \<noteq> 0"
    by linarith+
  then have "d1_value 110 100 0 (4 / 100) (2 / 10) = PosInf"
    using d1_value_zero_divisor [of 110 100 0 "2 / 10" "4 / 100"] by simp
  then show "closed_formula 110 100 0 (4 / 100) (2 / 10) ''call'' = Inr (Some (Finite 10))"
    using closed_formula_infinite_d1(1) [of 100 110 0 "4 / 100" "2 / 10"] by simp
qed

text \<open>
  C6, as amended. \<open>closed_formula\<close> validates neither \<open>sigma\<close> nor \<open>T\<close> and raises no error for
  them. For \<open>S0 > 0\<close>, \<open>K > 0\<close> and a call or a put:
  \<^item> for \<open>T < 0\<close> the result is \<open>nan\<close>;
  \<^item> for \<open>T > 0\<close> and \<open>sigma < 0\<close> it is the number the same formula gives;
  \<^item> for \<open>T > 0\<close> and \<open>sigma = 0\<close>, with \<open>m = ln (S0 / K) + r * T\<close>: call
    \<open>S0 - K * exp (- r * T)\<close> and put \<open>0\<close> when \<open>m > 0\<close>, call \<open>0\<close> and put
    \<open>K * exp (- r * T) - S0\<close> when \<open>m < 0\<close>, and \<open>nan\<close> when \<open>m = 0\<close>;
  \<^item> for \<open>T = 0\<close>: call \<open>S0 - K\<close> and put \<open>0\<close> when \<open>S0 > K\<close>, call \<open>0\<close> and put \<open>K - S0\<close>
    when \<open>S0 < K\<close>, the two cases exchanged for a negative \<open>sigma\<close>, and \<open>nan\<close> when
    \<open>S0 = K\<close>.
\<close>

theorem closed_formula_unvalidated:
  fixes S0 K T r sigma :: real
  assumes "0 < S0" "0 < K"
  defines "m \<equiv> ln (S0 / K) + r * T"
  defines "call \<equiv> closed_formula S0 K T r sigma ''call''"
  defines "put \<equiv> closed_formula S0 K T r sigma ''put''"
  shows "(T < 0 \<longrightarrow> call = Inr (Some NonFinite) \<and> put = Inr (Some NonFinite))
       \<and> (0 < T \<and> sigma < 0 \<longrightarrow>
            call = Inr (Some (Finite (S0 * norm_cdf (bs_d1 S0 K T r sigma)
                                      - K * exp (- r * T) * norm_cdf (bs_d2 S0 K T r sigma))))
          \<and> put = Inr (Some (Finite (K * exp (- r * T) * norm_cdf (- bs_d2 S0 K T r sigma)
                                      - S0 * norm_cdf (- bs_d1 S0 K T r sigma)))))
       \<and> (0 < T \<and> sigma = 0 \<and> 0 < m \<longrightarrow>
            call = Inr (Some (Finite (S0 - K * exp (- r * T)))) \<and> put = Inr (Some (Finite 0)))
       \<and> (0 < T \<and> sigma = 0 \<and> m < 0 \<longrightarrow>
            call = Inr (Some (Finite 0)) \<and> put = Inr (Some (Finite (K * exp (- r * T) - S0))))
       \<and> (0 < T \<and> sigma = 0 \<and> m = 0 \<longrightarrow>
            call = Inr (Some NonFinite) \<and> put = Inr (Some NonFinite))
       \<and> (T = 0 \<and> (if 0 \<le> sigma then K < S0 else S0 < K) \<longrightarrow>
            call = Inr (Some (Finite (S0 - K))) \<and> put = Inr (Some (Finite 0)))
       \<and> (T = 0 \<and> (if 0 \<le> sigma then S0 < K else K < S0) \<longrightarrow>
            call = Inr (Some (Finite 0)) \<and> put = Inr (Some (Finite (K - S0))))
       \<and> (T = 0 \<and> S0 = K \<longrightarrow> call = Inr (Some NonFinite) \<and> put = Inr (Some NonFinite))"
proof -
  have ratio: "0 < S0 / K"
    using assms(1,2) by (rule valid_ratio)
  from assms(2) have K: "K \<noteq> 0" by simp
  note inf = closed_formula_infinite_d1 [OF K, of S0 T r sigma, folded call_def put_def]
  have ln_pos: "0 < ln (S0 / K) \<longleftrightarrow> K < S0"
    using assms(1,2) by (simp add: ln_div)
  have ln_neg: "ln (S0 / K) < 0 \<longleftrightarrow> S0 < K"
    using assms(1,2) by (simp add: ln_div)
  have ln_zero: "ln (S0 / K) = 0 \<longleftrightarrow> S0 = K"
    using assms(1,2) by (simp add: ln_div)
  have negative: "call = Inr (Some NonFinite) \<and> put = Inr (Some NonFinite)" if "T < 0"
  proof (rule inf(3))
    show "d1_value S0 K T r sigma = NaN"
      using that by (simp add: d1_value_def)
  qed
  have formula: "call = Inr (Some (Finite (S0 * norm_cdf (bs_d1 S0 K T r sigma)
                                      - K * exp (- r * T) * norm_cdf (bs_d2 S0 K T r sigma))))
          \<and> put = Inr (Some (Finite (K * exp (- r * T) * norm_cdf (- bs_d2 S0 K T r sigma)
                                      - S0 * norm_cdf (- bs_d1 S0 K T r sigma))))"
    if "0 < T" "sigma < 0"
    unfolding call_def put_def
    using closed_formula_num [OF ratio that(1), of sigma r] that(2) by simp
  have zero_sigma: "d1_value S0 K T r sigma
      = (if m = 0 then NaN else if 0 < m then PosInf else NegInf)" if "0 < T" "sigma = 0"
    using that d1_value_zero_divisor [OF ratio, of T sigma r] by (simp add: m_def)
  have zero_T: "d1_value S0 K T r sigma
      = (if S0 = K then NaN else if (K < S0) = (0 \<le> sigma) then PosInf else NegInf)" if "T = 0"
    using that d1_value_zero_divisor [OF ratio, of T sigma r] ln_pos ln_zero
    by (auto simp add: not_le)
  show ?thesis
  proof (intro conjI impI)
    assume "T < 0"
    then show "call = Inr (Some NonFinite)" and "put = Inr (Some NonFinite)"
      using negative by simp_all
  next
    assume "0 < T \<and> sigma < 0"
    then show "call = Inr (Some (Finite (S0 * norm_cdf (bs_d1 S0 K T r sigma)
                                      - K * exp (- r * T) * norm_cdf (bs_d2 S0 K T r sigma))))"
      and "put = Inr (Some (Finite (K * exp (- r * T) * norm_cdf (- bs_d2 S0 K T r sigma)
                                      - S0 * norm_cdf (- bs_d1 S0 K T r sigma))))"
      using formula by simp_all
  next
    assume "0 < T \<and> sigma = 0 \<and> 0 < m"
    then have "d1_value S0 K T r sigma = PosInf"
      using zero_sigma by simp
    then show "call = Inr (Some (Finite (S0 - K * exp (- r * T))))" and "put = Inr (Some (Finite 0))"
      using inf(1) by simp_all
  next
    assume "0 < T \<and> sigma = 0 \<and> m < 0"
    then have "d1_value S0 K T r sigma = NegInf"
      using zero_sigma by simp
    then show "call = Inr (Some (Finite 0))" and "put = Inr (Some (Finite (K * exp (- r * T) - S0)))"
      using inf(2) by simp_all
  next
    assume "0 < T \<and> sigma = 0 \<and> m = 0"
    then have "d1_value S0 K T r sigma = NaN"
      using zero_sigma by simp
    then show "call = Inr (Some NonFinite)" and "put = Inr (Some NonFinite)"
      using inf(3) by simp_all
  next
    assume *: "T = 0 \<and> (if 0 \<le> sigma then K < S0 else S0 < K)"
    then have "d1_value S0 K T r sigma = PosInf"
      using zero_T by (auto split: if_splits)
    then show "call = Inr (Some (Finite (S0 - K)))" and "put = Inr (Some (Finite 0))"
      using inf(1) * by simp_all
  next
    assume *: "T = 0 \<and> (if 0 \<le> sigma then S0 < K else K < S0)"
    then have "d1_value S0 K T r sigma = NegInf"
      using zero_T by (auto split: if_splits)
    then show "call = Inr (Some (Finite 0))" and "put = Inr (Some (Finite (K - S0)))"
      using inf(2) * by simp_all
  next
    assume "T = 0 \<and> S0 = K"
    then have "d1_value S0 K T r sigma = NaN"
      using zero_T by simp
    then show "call = Inr (Some NonFinite)" and "put = Inr (Some NonFinite)"
      using inf(3) by simp_all
  qed
qed

theorem closed_formula_unvalidated_witness:
  "closed_formula 100 100 (- 1) (4 / 100) (2 / 10) ''call'' = Inr (Some NonFinite)
   \<and> closed_formula 100 100 1 (4 / 100) (- (2 / 10)) ''put''
       = Inr (Some (Finite (100 * exp (- (4 / 100) * 1) * norm_cdf (- bs_d2 100 100 1 (4 / 100) (- (2 / 10)))
                                   - 100 * norm_cdf (- bs_d1 100 100 1 (4 / 100) (- (2 / 10))))))
   \<and> closed_formula 110 100 1 (4 / 100) 0 ''put'' = Inr (Some (Finite 0))
   \<and> closed_formula 110 100 0 (4 / 100) (2 / 10) ''put'' = Inr (Some (Finite 0))
   \<and> closed_formula 90 100 0 (4 / 100) (2 / 10) ''put'' = Inr (Some (Finite 10))
   \<and> closed_formula 110 100 0 (4 / 100) (- (2 / 10)) ''put'' = Inr (Some (Finite (- 10)))
   \<and> closed_formula 100 100 0 (4 / 100) (2 / 10) ''call'' = Inr (Some NonFinite)"
proof -
  have "0 < ln (11 / 10 :: real)"
    by (rule ln_gt_zero) simp
  then have m: "0 < ln (11 / 10 :: real) + 1 / 25"
    by linarith
  show ?thesis
    using m
      closed_formula_unvalidated [of 100 100 "- 1" "4 / 100" "2 / 10"]
      closed_formula_unvalidated [of 100 100 1 "4 / 100" "- (2 / 10)"]
      closed_formula_unvalidated [of 110 100 1 "4 / 100" 0]
      closed_formula_unvalidated [of 110 100 0 "4 / 100" "2 / 10"]
      closed_formula_unvalidated [of 90 100 0 "4 / 100" "2 / 10"]
      closed_formula_unvalidated [of 110 100 0 "4 / 100" "- (2 / 10)"]
      closed_formula_unvalidated [of 100 100 0 "4 / 100" "2 / 10"]
    by simp
qed

lemma sum_list_nth_sum: "sum_list (map f xs) = (\<Sum>i<length xs. f (xs ! i))"
  by (simp add: sum_list_sum_nth atLeast0LessThan)

text \<open>
  C3. For a payoff in \<open>{call, put}\<close> and a realised sample of \<open>M\<close> terminal prices,
  \<open>monte_carlo_method\<close> returns the arithmetic mean of the discounted payoffs and their
  sample standard deviation divided by \<open>sqrt M\<close>. A sample standard deviation needs two
  values: for a single path it is undefined, and so is the \<open>std_err\<close> returned.
\<close>

theorem monte_carlo_estimate:
  fixes S0 K T r sigma :: real
  assumes "payoff = ''call'' \<or> payoff = ''put''" and "1 \<le> length W"
  defines "M \<equiv> length W"
  defines "x \<equiv> \<lambda>i. spec_discounted_payoff payoff K T r (terminal_prices S0 W ! i)"
  shows "monte_carlo_method S0 K T r sigma W payoff
           = Inr (Finite (spec_mean x M),
                  if 2 \<le> M then Finite (spec_sample_sd x M / sqrt (real M)) else NonFinite)"
proof -
  let ?ST = "terminal_prices S0 W"
  let ?xs = "map (spec_discounted_payoff payoff K T r) ?ST"
  have len: "length ?xs = M"
    by (simp add: M_def terminal_prices_def)
  have M1: "1 \<le> M"
    using assms(2) by (simp add: M_def)
  have call: "spec_discounted_payoff ''call'' K T r = (\<lambda>s. exp (- r * T) * max (s - K) 0)"
    by (rule ext) (simp add: spec_discounted_payoff_def)
  have put: "spec_discounted_payoff ''put'' K T r = (\<lambda>s. exp (- r * T) * max (K - s) 0)"
    by (rule ext) (simp add: spec_discounted_payoff_def)
  have mc: "monte_carlo_method S0 K T r sigma W payoff = Inr (np_mean ?xs, ss_sem ?xs)"
  proof (cases "payoff = ''call''")
    case True
    then show ?thesis
      by (simp add: monte_carlo_method_def Let_def call)
  next
    case False
    with assms(1) have "payoff = ''put''" by simp
    then show ?thesis
      by (simp add: monte_carlo_method_def Let_def put)
  qed
  have nth: "\<And>i. i < M \<Longrightarrow> ?xs ! i = x i"
    by (simp add: x_def M_def terminal_prices_def)
  have sum: "sum_list ?xs = (\<Sum>i<M. x i)"
    using sum_list_nth_sum [of "\<lambda>v. v" ?xs] nth len by simp
  have mean: "sum_list ?xs / real M = spec_mean x M"
    by (simp add: spec_mean_def sum)
  have "sum_list (map (\<lambda>v. (v - spec_mean x M)\<^sup>2) ?xs) = (\<Sum>i<M. (?xs ! i - spec_mean x M)\<^sup>2)"
    using sum_list_nth_sum [of "\<lambda>v. (v - spec_mean x M)\<^sup>2" ?xs] len by simp
  also have "\<dots> = (\<Sum>i<M. (x i - spec_mean x M)\<^sup>2)"
    using nth by simp
  finally have sq: "sum_list (map (\<lambda>v. (v - spec_mean x M)\<^sup>2) ?xs) = (\<Sum>i<M. (x i - spec_mean x M)\<^sup>2)" .
  have "?xs \<noteq> []"
    using len M1 by auto
  then have m: "np_mean ?xs = Finite (spec_mean x M)"
    using mean len by (simp add: np_mean_def)
  have rM: "real (M - 1) = real M - 1"
    using M1 by (simp add: of_nat_diff)
  have s: "ss_sem ?xs = Finite (spec_sample_sd x M / sqrt (real M))" if "2 \<le> M"
    using that len mean sq rM by (simp add: ss_sem_def Let_def spec_sample_sd_def)
  have s1: "ss_sem ?xs = NonFinite" if "\<not> 2 \<le> M"
    using that len by (simp add: ss_sem_def Let_def)
  show ?thesis
    using s s1 by (simp add: mc m)
qed

lemma monte_carlo_single_path:
  "monte_carlo_method S0 K T r sigma [w] ''call''
     = Inr (Finite (exp (- r * T) * max (S0 * exp w - K) 0), NonFinite)"
  by (simp add: monte_carlo_method_def terminal_prices_def np_mean_def ss_sem_def)

theorem monte_carlo_estimate_witness:
  "monte_carlo_method 1 1 1 0 1 [0, ln 2] ''call'' = Inr (Finite (1 / 2), Finite (1 / 2))"
proof -
  have sd: "sqrt (1 / 2) / sqrt 2 = (1 / 2 :: real)"
    by (simp add: real_sqrt_divide real_div_sqrt)
  show ?thesis
    using monte_carlo_estimate [of "''call''" "[0, ln 2]" 1 1 1 0 1] sd
    by (simp add: spec_mean_def spec_sample_sd_def spec_discounted_payoff_def
        terminal_prices_def lessThan_Suc numeral_2_eq_2 power2_eq_square)
qed

section \<open>Properties of the binomial method\<close>

lemma fold_ignoring_index: "fold (\<lambda>i. f) xs = f ^^ length xs"
proof (induction xs)
  case Nil
  show ?case by simp
next
  case (Cons x xs)
  then show ?case by (simp add: funpow_swap1)
qed

lemma backward_iteration_funpow:
  "backward_iteration disc p q N V = (backward_step disc p q ^^ N) V"
  by (simp add: backward_iteration_def fold_ignoring_index)

lemma length_backward_step: "V \<noteq> [] \<Longrightarrow> length (backward_step disc p q V) = length V"
  by (simp add: backward_step_def)

lemma nth_backward_step:
  assumes "Suc j < length V"
  shows "backward_step disc p q V ! j = disc * (p * V ! Suc j + q * V ! j)"
proof -
  have "j < length (map2 (\<lambda>up down. disc * (p * up + q * down)) (tl V) (butlast V))"
    using assms by simp
  then have "backward_step disc p q V ! j
      = map2 (\<lambda>up down. disc * (p * up + q * down)) (tl V) (butlast V) ! j"
    unfolding backward_step_def by (simp only: nth_append if_True)
  also have "\<dots> = disc * (p * tl V ! j + q * butlast V ! j)"
    using assms by simp
  also have "tl V ! j = V ! Suc j"
    using assms by (simp add: nth_tl)
  also have "butlast V ! j = V ! j"
    using assms by (simp add: nth_butlast)
  finally show ?thesis .
qed

lemma backward_layers:
  assumes "length V0 = Suc N"
    and "\<And>j. j \<le> N \<Longrightarrow> V0 ! j = pay (S0 * u ^ j * d ^ (N - j))"
    and "k \<le> N"
  shows "length ((backward_step disc p (1 - p) ^^ k) V0) = Suc N
       \<and> (\<forall>j. j + k \<le> N \<longrightarrow>
            (backward_step disc p (1 - p) ^^ k) V0 ! j = tree_value pay S0 u d disc p N (N - k) j)"
  using assms(3)
proof (induction k)
  case 0
  have "tree_value pay S0 u d disc p N N j = pay (S0 * u ^ j * d ^ (N - j))" for j
    by (subst tree_value.simps) simp
  then show ?case using assms(1,2) by simp
next
  case (Suc k)
  let ?V = "(backward_step disc p (1 - p) ^^ k) V0"
  from Suc have len: "length ?V = Suc N"
    and val: "\<And>j. j + k \<le> N \<Longrightarrow> ?V ! j = tree_value pay S0 u d disc p N (N - k) j"
    by simp_all
  have ne: "?V \<noteq> []" using len by auto
  have "length (backward_step disc p (1 - p) ?V) = Suc N"
    using length_backward_step [OF ne] len by simp
  moreover have "backward_step disc p (1 - p) ?V ! j = tree_value pay S0 u d disc p N (N - Suc k) j"
    if j: "j + Suc k \<le> N" for j
  proof -
    have "Suc j < length ?V" using j len by simp
    then have "backward_step disc p (1 - p) ?V ! j = disc * (p * ?V ! Suc j + (1 - p) * ?V ! j)"
      by (rule nth_backward_step)
    also have "?V ! Suc j = tree_value pay S0 u d disc p N (N - k) (Suc j)"
      using j by (intro val) simp
    also have "?V ! j = tree_value pay S0 u d disc p N (N - k) j"
      using j by (intro val) simp
    also have "disc * (p * tree_value pay S0 u d disc p N (N - k) (Suc j)
                 + (1 - p) * tree_value pay S0 u d disc p N (N - k) j)
        = tree_value pay S0 u d disc p N (N - Suc k) j"
    proof -
      have lt: "\<not> N \<le> N - Suc k" and suc: "Suc (N - Suc k) = N - k"
        using j by simp_all
      show ?thesis
        by (subst (3) tree_value.simps) (simp only: lt suc if_False)
    qed
    finally show ?thesis .
  qed
  ultimately show ?case by simp
qed

lemma vanilla_payoffs_valid:
  "payoff = ''call'' \<or> payoff = ''put'' \<Longrightarrow>
     vanilla_payoffs payoff K ST = Inr (map (spec_payoff payoff K) ST)"
  by (auto simp add: vanilla_payoffs_def spec_payoff_def)

lemma binomial_method_tree:
  fixes S0 K T r sigma :: real and N :: int
  assumes "0 < T" "0 < sigma" "1 \<le> N" "payoff = ''call'' \<or> payoff = ''put''"
  defines "dt \<equiv> T / real_of_int N"
  defines "u \<equiv> exp (sigma * sqrt dt)"
  defines "d \<equiv> 1 / u"
  defines "p \<equiv> (exp (r * dt) - d) / (u - d)"
  shows "binomial_method S0 K T r sigma N payoff
           = Inr (Finite (tree_value (spec_payoff payoff K) S0 u d (exp (- r * dt)) p (nat N) 0 0))"
proof -
  let ?n = "nat N"
  let ?ST = "map (\<lambda>j. S0 * u ^ j * d ^ (?n - j)) [0..<nat (N + 1)]"
  let ?V0 = "map (spec_payoff payoff K) ?ST"
  have N1: "nat (N + 1) = Suc ?n"
    using assms(3) by simp
  have dt: "0 < dt"
    using assms(1,3) by (simp add: dt_def)
  then have fin: "\<not> (dt < 0 \<or> sigma * sqrt dt = 0)"
    using assms(2) by simp
  have len: "length ?V0 = Suc ?n"
    by (simp add: N1)
  have val: "?V0 ! j = spec_payoff payoff K (S0 * u ^ j * d ^ (?n - j))" if "j \<le> ?n" for j
  proof -
    have "j < Suc ?n" using that by simp
    then show ?thesis
      by (simp add: N1 del: upt_Suc)
  qed
  have "(backward_step (exp (- r * dt)) p (1 - p) ^^ ?n) ?V0 ! 0
          = tree_value (spec_payoff payoff K) S0 u d (exp (- r * dt)) p ?n (?n - ?n) 0"
    using backward_layers [OF len val, of ?n "exp (- r * dt)" p] by simp
  then have root: "backward_iteration (exp (- r * dt)) p (1 - p) ?n ?V0 ! 0
          = tree_value (spec_payoff payoff K) S0 u d (exp (- r * dt)) p ?n 0 0"
    by (simp add: backward_iteration_funpow)
  have neg: "\<not> N + 1 < 0" "N \<noteq> 0" "\<not> N < 0"
    using assms(3) by simp_all
  show ?thesis
    unfolding binomial_method_def Let_def
    using neg fin root
    by (simp add: vanilla_payoffs_valid [OF assms(4)] dt_def [symmetric] u_def [symmetric]
        d_def [symmetric] p_def [symmetric])
qed


text \<open>
  C2. For \<open>T > 0\<close>, \<open>sigma > 0\<close>, \<open>N \<ge> 1\<close>, any \<open>S0\<close>, \<open>K\<close> and \<open>r\<close> and a payoff in
  \<open>{call, put}\<close>, \<open>binomial_method\<close> returns the root value \<open>V 0 0\<close> of the \<open>N\<close>-step recombining
  tree with \<open>dt = T / N\<close>, \<open>u = exp (sigma * sqrt dt)\<close>, \<open>d = 1 / u\<close> and
  \<open>p = (exp (r * dt) - d) / (u - d)\<close>: the terminal value \<open>V N j\<close> is the payoff at
  \<open>S0 * u^j * d^(N - j)\<close> for \<open>j = 0..N\<close>, and an interior value is
  \<open>exp (- r * dt) * (p * V_up + (1 - p) * V_down)\<close>.
\<close>

theorem binomial_method_root:
  fixes S0 K T r sigma :: real and N :: int
  assumes "0 < T" "0 < sigma" "1 \<le> N" "payoff = ''call'' \<or> payoff = ''put''"
  defines "dt \<equiv> T / real_of_int N"
  defines "u \<equiv> exp (sigma * sqrt dt)"
  defines "d \<equiv> 1 / u"
  defines "p \<equiv> (exp (r * dt) - d) / (u - d)"
  defines "V \<equiv> tree_value (spec_payoff payoff K) S0 u d (exp (- r * dt)) p (nat N)"
  shows "binomial_method S0 K T r sigma N payoff = Inr (Finite (V 0 0))
       \<and> (\<forall>j\<le>nat N. V (nat N) j = spec_payoff payoff K (S0 * u ^ j * d ^ (nat N - j)))
       \<and> (\<forall>n<nat N. \<forall>j\<le>n.
            V n j = exp (- r * dt) * (p * V (n + 1) (j + 1) + (1 - p) * V (n + 1) j))"
proof (intro conjI allI impI)
  show "binomial_method S0 K T r sigma N payoff = Inr (Finite (V 0 0))"
    unfolding V_def p_def d_def u_def dt_def
    using assms(1-4) by (rule binomial_method_tree)
next
  fix j
  show "V (nat N) j = spec_payoff payoff K (S0 * u ^ j * d ^ (nat N - j))"
    unfolding V_def by (subst tree_value.simps) simp
next
  fix n j
  assume "n < nat N"
  then have "\<not> nat N \<le> n" by simp
  then show "V n j = exp (- r * dt) * (p * V (n + 1) (j + 1) + (1 - p) * V (n + 1) j)"
    unfolding V_def by (subst tree_value.simps) simp
qed

theorem binomial_method_root_witness:
  "binomial_method 100 100 1 (4 / 100) (2 / 10) 2 ''put''
     = Inr (Finite (tree_value (spec_payoff ''put'' 100) 100
          (exp (2 / 10 * sqrt (1 / 2))) (1 / exp (2 / 10 * sqrt (1 / 2))) (exp (- (4 / 100) * (1 / 2)))
          ((exp (4 / 100 * (1 / 2)) - 1 / exp (2 / 10 * sqrt (1 / 2)))
             / (exp (2 / 10 * sqrt (1 / 2)) - 1 / exp (2 / 10 * sqrt (1 / 2))))
          2 0 0))"
  using binomial_method_root [of 1 "2 / 10" 2 "''put''" 100 100 "4 / 100"]
  by simp

lemma low_volatility_probability:
  "1 < (exp (4 / 100 * (1 / 1)) - 1 / exp (1 / 100 * sqrt (1 / 1)))
         / (exp (1 / 100 * sqrt (1 / 1)) - 1 / exp (1 / 100 * sqrt (1 / 1 :: real)))"
proof -
  let ?u = "exp (1 / 100 :: real)"
  have u: "1 < ?u" by simp
  then have d: "1 / ?u < 1" by simp
  have "?u < exp (4 / 100 :: real)" by simp
  then have "?u - 1 / ?u < exp (4 / 100) - 1 / ?u" by simp
  moreover have "0 < ?u - 1 / ?u" using u d by linarith
  ultimately have "1 < (exp (4 / 100) - 1 / ?u) / (?u - 1 / ?u)"
    by (simp add: less_divide_eq)
  then show ?thesis by simp
qed

text \<open>
  C7. The claim that \<open>binomial_method\<close> reports an error when the derived probability
  leaves \<open>[0, 1]\<close> does not hold: with a volatility of one percent, and the notebook's
  other parameters, a single step has \<open>p > 1\<close> and the call returns a number.
\<close>

theorem binomial_method_accepts_probability_above_one:
  "\<not> ((exp (4 / 100 * (1 / 1)) - 1 / exp (1 / 100 * sqrt (1 / 1)))
         / (exp (1 / 100 * sqrt (1 / 1)) - 1 / exp (1 / 100 * sqrt (1 / 1 :: real))) \<le> 1)
   \<and> binomial_method 100 100 1 (4 / 100) (1 / 100) 1 ''call''
     = Inr (Finite (exp (- (4 / 100)) *
         ((exp (4 / 100) - 1 / exp (1 / 100)) / (exp (1 / 100) - 1 / exp (1 / 100))
            * (100 * exp (1 / 100) - 100))))"
proof
  show "\<not> ((exp (4 / 100 * (1 / 1)) - 1 / exp (1 / 100 * sqrt (1 / 1)))
         / (exp (1 / 100 * sqrt (1 / 1)) - 1 / exp (1 / 100 * sqrt (1 / 1 :: real))) \<le> 1)"
    using low_volatility_probability by simp
next
  let ?u = "exp (1 / 100 :: real)"
  have u: "1 < ?u" by simp
  then have d: "1 / ?u < 1" by simp
  have up: "max (100 * ?u - 100) 0 = 100 * ?u - 100"
    using u by simp
  have down: "max (100 / ?u - 100) 0 = 0"
    using u by (simp add: divide_le_eq)
  have "binomial_method 100 100 1 (4 / 100) (1 / 100) 1 ''call''
      = Inr (Finite (tree_value (spec_payoff ''call'' 100) 100 ?u (1 / ?u) (exp (- (4 / 100)))
          ((exp (4 / 100) - 1 / ?u) / (?u - 1 / ?u)) 1 0 0))"
    using binomial_method_tree [of 1 "1 / 100" 1 "''call''" 100 100 "4 / 100"]
    by simp
  also have "tree_value (spec_payoff ''call'' 100) 100 ?u (1 / ?u) (exp (- (4 / 100)))
          ((exp (4 / 100) - 1 / ?u) / (?u - 1 / ?u)) 1 0 0
     = exp (- (4 / 100)) * ((exp (4 / 100) - 1 / ?u) / (?u - 1 / ?u) * (100 * ?u - 100))"
    using up down by (simp add: tree_value.simps [of _ _ _ _ _ _ _ 0] tree_value.simps [of _ _ _ _ _ _ _ "Suc 0"] spec_payoff_def)
  finally show "binomial_method 100 100 1 (4 / 100) (1 / 100) 1 ''call''
     = Inr (Finite (exp (- (4 / 100)) *
         ((exp (4 / 100) - 1 / exp (1 / 100)) / (exp (1 / 100) - 1 / exp (1 / 100))
            * (100 * exp (1 / 100) - 100))))" .
qed

text \<open>
  C7, as amended. \<open>binomial_method\<close> never checks the derived probability: for \<open>T > 0\<close>,
  \<open>sigma > 0\<close>, \<open>N \<ge> 1\<close> and a payoff in \<open>{call, put}\<close>, also when \<open>p\<close> lies outside \<open>[0, 1]\<close>,
  it completes the backward induction and returns the root value computed with that \<open>p\<close>.
\<close>

theorem binomial_method_unchecked_probability:
  fixes S0 K T r sigma :: real and N :: int
  assumes "0 < T" "0 < sigma" "1 \<le> N" "payoff = ''call'' \<or> payoff = ''put''"
  defines "dt \<equiv> T / real_of_int N"
  defines "u \<equiv> exp (sigma * sqrt dt)"
  defines "d \<equiv> 1 / u"
  defines "p \<equiv> (exp (r * dt) - d) / (u - d)"
  assumes "p < 0 \<or> 1 < p"
  shows "binomial_method S0 K T r sigma N payoff
           = Inr (Finite (tree_value (spec_payoff payoff K) S0 u d (exp (- r * dt)) p (nat N) 0 0))"
  unfolding p_def d_def u_def dt_def
  using assms(1-4) by (rule binomial_method_tree)

theorem binomial_method_unchecked_probability_witness:
  "binomial_method 100 100 1 (4 / 100) (1 / 100) 1 ''call''
     = Inr (Finite (tree_value (spec_payoff ''call'' 100) 100
          (exp (1 / 100)) (1 / exp (1 / 100)) (exp (- (4 / 100)))
          ((exp (4 / 100) - 1 / exp (1 / 100)) / (exp (1 / 100) - 1 / exp (1 / 100)))
          1 0 0))"
  using binomial_method_unchecked_probability [of 1 "1 / 100" 1 "''call''" "4 / 100" 100 100]
    low_volatility_probability
  by simp

section \<open>Properties of the simulated paths and the American put\<close>

lemma map2_same_list: "map2 f (map g xs) (map h xs) = map (\<lambda>x. f (g x) (h x)) xs"
  by (induction xs) simp_all

lemma gbm_step_aggregated:
  "gbm_step dt r sigma (terminal_prices S0 (map (aggregated_increment dt r sigma Zf i) js))
       (map (Zf i) js)
     = terminal_prices S0 (map (aggregated_increment dt r sigma Zf (Suc i)) js)"
proof -
  have inc: "aggregated_increment dt r sigma Zf i j
        + ((r - sigma\<^sup>2 / 2) * dt + sigma * sqrt dt * Zf i j)
      = aggregated_increment dt r sigma Zf (Suc i) j" for j
    by (simp add: aggregated_increment_def algebra_simps)
  have pt: "S0 * exp (aggregated_increment dt r sigma Zf i j)
          * exp ((r - sigma\<^sup>2 / 2) * dt + sigma * sqrt dt * Zf i j)
      = S0 * exp (aggregated_increment dt r sigma Zf (Suc i) j)" for j
    by (subst mult.assoc, subst exp_add [symmetric], subst inc, rule refl)
  show ?thesis
    unfolding gbm_step_def terminal_prices_def map_map comp_def map2_same_list
    by (simp only: pt)
qed

lemma simulate_rows:
  fixes dt r sigma spot :: real and Zf :: "nat \<Rightarrow> nat \<Rightarrow> real" and paths N k :: nat
  assumes "k \<le> N"
  defines "step \<equiv> \<lambda>i S. S[i := gbm_step dt r sigma (S ! (i - 1)) (normal_draws Zf N paths ! (i - 1))]"
  defines "init \<equiv> (replicate (N + 1) (replicate paths (0::real)))[0 := replicate paths spot]"
  shows "length (fold step [1..<k + 1] init) = N + 1
       \<and> (\<forall>i\<le>k. fold step [1..<k + 1] init ! i
              = terminal_prices spot (map (aggregated_increment dt r sigma Zf i) [0..<paths]))"
  using assms(1)
proof (induction k)
  case 0
  have "replicate paths spot
      = terminal_prices spot (map (aggregated_increment dt r sigma Zf 0) [0..<paths])"
    by (simp add: terminal_prices_def aggregated_increment_def map_replicate_trivial comp_def)
  then show ?case
    by (simp add: init_def)
next
  case (Suc k)
  let ?row = "\<lambda>i. terminal_prices spot (map (aggregated_increment dt r sigma Zf i) [0..<paths])"
  define S where "S = fold step [1..<k + 1] init"
  from Suc have len: "length S = N + 1" and rows: "\<And>i. i \<le> k \<Longrightarrow> S ! i = ?row i"
    by (simp_all add: S_def)
  have k: "k < N" using Suc.prems by simp
  have "[1..<Suc k + 1] = [1..<k + 1] @ [Suc k]"
    by simp
  then have unfold: "fold step [1..<Suc k + 1] init = step (Suc k) S"
    by (simp only: S_def fold_append fold_simps comp_apply id_apply)
  have draws: "normal_draws Zf N paths ! k = map (Zf k) [0..<paths]"
    using k by (simp add: normal_draws_def)
  have new: "gbm_step dt r sigma (S ! k) (normal_draws Zf N paths ! k) = ?row (Suc k)"
    by (simp only: rows [of k] order_refl draws gbm_step_aggregated)
  have S': "step (Suc k) S = S[Suc k := ?row (Suc k)]"
    using new by (simp add: step_def)
  have "length (step (Suc k) S) = N + 1"
    by (simp add: S' len)
  moreover have "step (Suc k) S ! i = ?row i" if "i \<le> Suc k" for i
  proof (cases "i = Suc k")
    case True
    then show ?thesis using k len by (simp add: S')
  next
    case False
    with that have "i \<le> k" by simp
    then show ?thesis using False rows by (simp add: S')
  qed
  ultimately show ?case
    by (simp only: unfold) blast
qed

lemma simulate_paths_rows:
  fixes dt r sigma spot :: real
  shows "length (simulate_paths spot dt r sigma N paths (normal_draws Zf N paths)) = N + 1"
    and "i \<le> N \<Longrightarrow> simulate_paths spot dt r sigma N paths (normal_draws Zf N paths) ! i
      = terminal_prices spot (map (aggregated_increment dt r sigma Zf i) [0..<paths])"
  using simulate_rows [where k = N and N = N and dt = dt and r = r and sigma = sigma
      and Zf = Zf and paths = paths and spot = spot]
  by (simp_all add: simulate_paths_def)

text \<open>
  C9. For \<open>N \<ge> 1\<close>, \<open>T \<ge> 0\<close>, \<open>dt = T / N\<close> and any draws, the \<open>N\<close>-step recursion
  \<open>S\<^sub>i = S\<^sub>i\<^sub>-\<^sub>1 * exp ((r - sigma\<^sup>2 / 2) * dt + sigma * sqrt dt * Z\<^sub>i)\<close> started at \<open>S0\<close> ends, on every
  path, at \<open>S0 * exp ((r - sigma\<^sup>2 / 2) * T + sigma * sqrt dt * (Z\<^sub>1 + \<dots> + Z\<^sub>N))\<close>; so the last
  row of the simulated prices is the terminal-price update \<open>ST = S0 * exp W\<close> of
  \<open>monte_carlo_method\<close> at the aggregated increments \<open>W\<close>.
\<close>

theorem gbm_terminal_price:
  fixes S0 T r sigma :: real and Zf :: "nat \<Rightarrow> nat \<Rightarrow> real" and N paths :: nat
  assumes "0 < N" "0 \<le> T"
  defines "dt \<equiv> T / real N"
  defines "S \<equiv> simulate_paths S0 dt r sigma N paths (normal_draws Zf N paths)"
  defines "W \<equiv> map (\<lambda>j. (r - sigma\<^sup>2 / 2) * T + sigma * sqrt dt * (\<Sum>i<N. Zf i j)) [0..<paths]"
  shows "(\<forall>j<paths. S ! N ! j
            = S0 * exp ((r - sigma\<^sup>2 / 2) * T + sigma * sqrt dt * (\<Sum>i<N. Zf i j)))
       \<and> S ! N = terminal_prices S0 W"
proof -
  have T: "dt * real N = T"
    using assms(1) by (simp add: dt_def)
  have agg: "aggregated_increment dt r sigma Zf N
      = (\<lambda>j. (r - sigma\<^sup>2 / 2) * T + sigma * sqrt dt * (\<Sum>i<N. Zf i j))"
    by (rule ext) (simp add: aggregated_increment_def T)
  have last: "S ! N = terminal_prices S0 W"
    unfolding S_def W_def using simulate_paths_rows(2) [where i = N and N = N and spot = S0 and dt = dt and r = r
        and sigma = sigma and paths = paths and Zf = Zf]
    by (simp add: agg)
  moreover have "S ! N ! j = S0 * exp ((r - sigma\<^sup>2 / 2) * T + sigma * sqrt dt * (\<Sum>i<N. Zf i j))"
    if "j < paths" for j
    using that by (simp add: last W_def terminal_prices_def)
  ultimately show ?thesis by blast
qed


theorem gbm_terminal_price_witness:
  "simulate_paths 100 (1 / real 2) (4 / 100) (2 / 10) 2 1 (normal_draws (\<lambda>i j. real i) 2 1) ! 2
     = terminal_prices 100
         (map (\<lambda>j. (4 / 100 - (2 / 10)\<^sup>2 / 2) * 1 + 2 / 10 * sqrt (1 / real 2) * (\<Sum>i<2. real i)) [0..<1])"
  using gbm_terminal_price [of 2 1 1 100 "4 / 100" "2 / 10" "\<lambda>i j. real i"] by simp

lemma exercise_fold_dominates:
  fixes disc :: real
  assumes "0 \<le> disc"
    and "\<And>i. i \<le> N \<Longrightarrow> length (payoffs ! i) = P"
    and "k \<le> N"
  defines "f \<equiv> \<lambda>i option_values.
             let discounted_payoff = map (\<lambda>v. disc * v) option_values
             in map2 max (payoffs ! i) discounted_payoff"
  shows "length (fold f (rev [N - k..<N]) (payoffs ! N)) = P
       \<and> (\<forall>j<P. \<forall>i. N - k \<le> i \<and> i \<le> N \<longrightarrow>
            disc ^ (i - (N - k)) * payoffs ! i ! j \<le> fold f (rev [N - k..<N]) (payoffs ! N) ! j)"
  using assms(3)
proof (induction k)
  case 0
  have "i = N" if "N \<le> i \<and> i \<le> N" for i
    using that by simp
  then show ?case
    using assms(2) [of N] by auto
next
  case (Suc k)
  define m where "m = N - Suc k"
  define V where "V = fold f (rev [N - k..<N]) (payoffs ! N)"
  have m: "m < N" "Suc m = N - k"
    using Suc.prems by (simp_all add: m_def)
  from Suc have lenV: "length V = P"
    and IH: "\<And>j i. j < P \<Longrightarrow> N - k \<le> i \<Longrightarrow> i \<le> N \<Longrightarrow>
               disc ^ (i - (N - k)) * payoffs ! i ! j \<le> V ! j"
    by (simp_all add: V_def)
  have "[m..<N] = m # [N - k..<N]"
    using m by (simp add: upt_conv_Cons)
  then have unfold: "fold f (rev [m..<N]) (payoffs ! N) = f m V"
    by (simp add: V_def)
  have row: "length (payoffs ! m) = P"
    using m(1) by (intro assms(2)) simp
  have len: "length (f m V) = P"
    using row lenV by (simp add: f_def)
  have nth: "f m V ! j = max (payoffs ! m ! j) (disc * V ! j)" if "j < P" for j
    using that row lenV by (simp add: f_def)
  have "disc ^ (i - m) * payoffs ! i ! j \<le> f m V ! j" if j: "j < P" and i: "m \<le> i" "i \<le> N" for i j
  proof (cases "i = m")
    case True
    then show ?thesis by (simp add: nth [OF j])
  next
    case False
    with i m have later: "N - k \<le> i" and exponent: "i - m = Suc (i - (N - k))"
      by simp_all
    have "disc ^ (i - m) * payoffs ! i ! j = disc * (disc ^ (i - (N - k)) * payoffs ! i ! j)"
      by (simp add: exponent)
    also have "\<dots> \<le> disc * V ! j"
      using IH [OF j later i(2)] assms(1) by (rule mult_left_mono)
    also have "\<dots> \<le> f m V ! j"
      by (simp add: nth [OF j])
    finally show ?thesis .
  qed
  then show ?case
    using len by (simp add: unfold m_def [symmetric])
qed

lemma exercise_values_dominate:
  assumes "length payoffs = N + 1" and "\<And>i. i \<le> N \<Longrightarrow> length (payoffs ! i) = P"
  shows "length (exercise_values r dt N payoffs) = P"
    and "j < P \<Longrightarrow> i \<le> N \<Longrightarrow>
           exp (- r * dt) ^ i * payoffs ! i ! j \<le> exercise_values r dt N payoffs ! j"
proof -
  have "payoffs \<noteq> []"
    using assms(1) by auto
  then have last: "last payoffs = payoffs ! N"
    using assms(1) by (simp add: last_conv_nth)
  have "0 \<le> exp (- r * dt)"
    by simp
  from exercise_fold_dominates [OF this assms(2) order_refl, of N]
  have all: "length (exercise_values r dt N payoffs) = P
       \<and> (\<forall>j<P. \<forall>i. i \<le> N \<longrightarrow>
            exp (- r * dt) ^ i * payoffs ! i ! j \<le> exercise_values r dt N payoffs ! j)"
    by (simp add: exercise_values_def last)
  then show "length (exercise_values r dt N payoffs) = P"
    by simp
  from all show "j < P \<Longrightarrow> i \<le> N \<Longrightarrow>
           exp (- r * dt) ^ i * payoffs ! i ! j \<le> exercise_values r dt N payoffs ! j"
    by simp
qed

text \<open>
  C8. For \<open>N \<ge> 1\<close>, at least one path and \<open>T \<ge> 0\<close>, the American put value of the backward
  induction, which takes at each step the maximum of the exercise value and the
  discounted continuation value, is a number and is at least the European put value over
  the same paths, the average of \<open>exp (- r * T) * max (K - S\<^sub>N) 0\<close>. It is at least that
  because it is at least the average discounted exercise value of every exercise rule
  \<open>\<tau>\<close>, which stops path \<open>j\<close> at a step \<open>\<tau> j \<le> N\<close> of its own; the European value is the
  rule that stops every path at \<open>N\<close>.
\<close>

theorem american_put_ge_european:
  fixes S0 K T r sigma :: real and Zf :: "nat \<Rightarrow> nat \<Rightarrow> real" and N paths :: nat
  assumes "0 < N" "0 < paths" "0 \<le> T"
  defines "S \<equiv> simulate_paths S0 (T / real N) r sigma N paths (normal_draws Zf N paths)"
  shows "\<exists>a se. american_put_mc S0 K T r sigma N paths Zf = Inr (Finite a, se)
              \<and> european_put_same_paths K T r (S ! N) \<le> a
              \<and> (\<forall>\<tau>. (\<forall>j<paths. \<tau> j \<le> N) \<longrightarrow>
                    (\<Sum>j<paths. exp (- r * (T / real N * real (\<tau> j))) * max (K - S ! \<tau> j ! j) 0)
                      / real paths \<le> a)"
proof -
  define dt where "dt = T / real N"
  define payoffs where "payoffs = map (map (\<lambda>s. max (K - s) 0)) S"
  define ov where "ov = exercise_values r dt N payoffs"
  have S: "S = simulate_paths S0 dt r sigma N paths (normal_draws Zf N paths)"
    by (simp add: S_def dt_def)
  have "0 \<le> dt"
    unfolding dt_def using assms(1,3) by (intro divide_nonneg_nonneg) simp_all
  then have dt: "\<not> dt < 0"
    by simp
  have lenS: "length S = N + 1"
    unfolding S by (rule simulate_paths_rows(1))
  have rowS: "length (S ! i) = paths" if "i \<le> N" for i
    unfolding S using simulate_paths_rows(2) [OF that, where spot = S0 and dt = dt
        and r = r and sigma = sigma and paths = paths and Zf = Zf]
    by (simp add: terminal_prices_def)
  have lenP: "length payoffs = N + 1"
    by (simp add: payoffs_def lenS)
  have rowP: "length (payoffs ! i) = paths" if "i \<le> N" for i
    using that rowS lenS by (simp add: payoffs_def)
  have nthP: "payoffs ! i ! j = max (K - S ! i ! j) 0" if "i \<le> N" "j < paths" for i j
    using that lenS rowS by (simp add: payoffs_def)
  have len: "length ov = paths"
    unfolding ov_def using lenP rowP by (rule exercise_values_dominate(1))
  have disc: "exp (- r * dt) ^ i = exp (- r * (dt * real i))" for i
  proof -
    have "exp (- r * dt) ^ i = exp (real i * (- r * dt))"
      by (simp only: exp_of_nat_mult)
    also have "real i * (- r * dt) = - r * (dt * real i)"
      by simp
    finally show ?thesis .
  qed
  have dominate: "exp (- r * (dt * real i)) * max (K - S ! i ! j) 0 \<le> ov ! j"
    if "j < paths" "i \<le> N" for i j
  proof -
    have "exp (- r * dt) ^ i * payoffs ! i ! j \<le> ov ! j"
      unfolding ov_def using lenP rowP that by (rule exercise_values_dominate(2))
    then show ?thesis
      by (simp only: disc nthP [OF that(2,1)])
  qed
  have mean: "sum_list ov / real paths = (\<Sum>j<paths. ov ! j) / real paths"
    using len by (simp add: sum_list_sum_nth atLeast0LessThan)
  have rule: "(\<Sum>j<paths. exp (- r * (dt * real (\<tau> j))) * max (K - S ! \<tau> j ! j) 0) / real paths
      \<le> sum_list ov / real paths" if "\<forall>j<paths. \<tau> j \<le> N" for \<tau>
  proof -
    have "(\<Sum>j<paths. exp (- r * (dt * real (\<tau> j))) * max (K - S ! \<tau> j ! j) 0)
        \<le> (\<Sum>j<paths. ov ! j)"
      using that dominate by (intro sum_mono) simp
    then show ?thesis
      unfolding mean using assms(2) by (simp add: divide_right_mono)
  qed
  have "dt * real N = T"
    using assms(1) by (simp add: dt_def)
  then have "european_put_same_paths K T r (S ! N) \<le> sum_list ov / real paths"
    using rule [of "\<lambda>j. N"] rowS [of N] by (simp add: european_put_same_paths_def)
  moreover have "ov \<noteq> []"
    using len assms(2) by auto
  then have "american_put_mc S0 K T r sigma N paths Zf
      = Inr (Finite (sum_list ov / real paths), ss_sem ov)"
    using assms(1) dt len
    by (simp add: american_put_mc_def Let_def dt_def [symmetric] S [symmetric]
        payoffs_def [symmetric] ov_def [symmetric] np_mean_def)
  ultimately show ?thesis
    using rule unfolding dt_def by blast
qed

theorem american_put_ge_european_witness:
  "\<exists>a se. american_put_mc 100 100 1 (4 / 100) (2 / 10) 2 1 (\<lambda>i j. if i = 0 then - 1 else 1)
           = Inr (Finite a, se)
       \<and> european_put_same_paths 100 1 (4 / 100)
            (simulate_paths 100 (1 / real 2) (4 / 100) (2 / 10) 2 1
               (normal_draws (\<lambda>i j. if i = 0 then - 1 else 1) 2 1) ! 2) = 0
       \<and> 0 < a"
proof -
  define Z :: "nat \<Rightarrow> nat \<Rightarrow> real" where "Z = (\<lambda>i j. if i = 0 then - 1 else 1)"
  define S where "S = simulate_paths 100 (1 / real 2) (4 / 100) (2 / 10) 2 1 (normal_draws Z 2 1)"
  define x :: real where "x = 1 / 100 - 2 / 10 * sqrt (1 / 2)"
  have "(1 / 20 :: real) < sqrt (1 / 2)"
    by (rule real_less_rsqrt) (simp add: power2_eq_square)
  then have x: "x < 0"
    by (simp add: x_def)
  have dip: "S ! 1 = [100 * exp x]"
    unfolding S_def x_def
    by (simp add: simulate_paths_rows(2) terminal_prices_def aggregated_increment_def Z_def
        power2_eq_square)
  have recover: "S ! 2 = [100 * exp (2 / 100)]"
    unfolding S_def
    by (simp add: simulate_paths_rows(2) terminal_prices_def aggregated_increment_def Z_def
        power2_eq_square lessThan_Suc numeral_2_eq_2)
  from american_put_ge_european [of 2 1 1 100 100 "4 / 100" "2 / 10" Z, folded S_def]
  obtain a se where price: "american_put_mc 100 100 1 (4 / 100) (2 / 10) 2 1 Z = Inr (Finite a, se)"
    and rules: "\<And>\<tau>. \<forall>j<1. \<tau> j \<le> 2 \<Longrightarrow>
      (\<Sum>j<1. exp (- (4 / 100) * (1 / real 2 * real (\<tau> j))) * max (100 - S ! \<tau> j ! j) 0) / real 1 \<le> a"
    by auto
  have "exp (- (4 / 100) * (1 / real 2 * real 1)) * max (100 - S ! 1 ! 0) 0 \<le> a"
    using rules [of "\<lambda>j. 1"] by simp
  moreover have "0 < max (100 - 100 * exp x) 0"
    using x by simp
  then have "0 < max (100 - S ! 1 ! 0) 0"
    by (simp only: dip nth_Cons_0)
  then have "0 < exp (- (4 / 100) * (1 / real 2 * real 1)) * max (100 - S ! 1 ! 0) 0"
    by (intro mult_pos_pos exp_gt_zero)
  ultimately have "0 < a"
    by linarith
  moreover have "european_put_same_paths 100 1 (4 / 100) (S ! 2) = 0"
    by (simp add: european_put_same_paths_def recover)
  ultimately show ?thesis
    using price unfolding S_def Z_def by blast
qed

end
